theory Spec2Isabelle
  imports Main "HOL-Library.Char_ord" "HOL-Library.List_Lexorder" "HOL-Library.Multiset"
begin

chapter \<open>The document conversion pipeline: rotation, discovery, conversion, report\<close>

text \<open>
  A shallow embedding of \<^verbatim>\<open>docling-inputs2outputs.py\<close>. Python strings are
  \<^typ>\<open>string\<close> (lists of bytes; file and directory names are taken to be ASCII), Python
  integers are \<^typ>\<open>int\<close>, or \<^typ>\<open>nat\<close> where the value cannot be negative. Paths
  follow \<^verbatim>\<open>posixpath\<close>. Whatever the program does not decide itself (the converter,
  the clock, an operating-system call that raises) is given by an environment, so that
  every \<^verbatim>\<open>except\<close> branch and every early \<^verbatim>\<open>return\<close> of the source is a branch of the
  model. Logging is left out.
\<close>

section \<open>The program\<close>

subsection \<open>Output naming\<close>

text \<open>
  \<^verbatim>\<open>generate_output_filename\<close>:
  \<^verbatim>\<open>return f"{input_filename}_from_{input_ext}.{output_ext}"\<close>
\<close>

definition generate_output_filename :: "string \<Rightarrow> string \<Rightarrow> string \<Rightarrow> string" where
  "generate_output_filename input_filename input_ext output_ext =
     input_filename @ ''_from_'' @ input_ext @ ''.'' @ output_ext"

text \<open>
  The dictionary \<^verbatim>\<open>EXPORT_METHODS\<close>, as an association list in the order of the
  source; \<^verbatim>\<open>EXPORT_METHODS.get(k)\<close> is \<open>map_of EXPORT_METHODS k\<close>.
\<close>

definition EXPORT_METHODS :: "(string \<times> string) list" where
  "EXPORT_METHODS =
     [(''pdf'', ''export_to_pdf''),
      (''docx'', ''export_to_docx''),
      (''txt'', ''export_to_text''),
      (''md'', ''export_to_markdown''),
      (''html'', ''export_to_html'')]"

subsection \<open>Paths and strings\<close>

text \<open>
  \<^verbatim>\<open>str.lower\<close> on ASCII letters (other bytes are left as they are),
  \<^verbatim>\<open>str.lstrip(c)\<close> and \<^verbatim>\<open>str.rstrip(c)\<close> for a single character \<open>c\<close>.
\<close>

definition lower_char :: "char \<Rightarrow> char" where
  "lower_char c =
     (case map_of (zip ''ABCDEFGHIJKLMNOPQRSTUVWXYZ'' ''abcdefghijklmnopqrstuvwxyz'') c of
        None \<Rightarrow> c | Some l \<Rightarrow> l)"

definition lower :: "string \<Rightarrow> string" where
  "lower s = map lower_char s"

definition lstrip :: "char \<Rightarrow> string \<Rightarrow> string" where
  "lstrip c s = dropWhile (\<lambda>x. x = c) s"

definition rstrip :: "char \<Rightarrow> string \<Rightarrow> string" where
  "rstrip c s = rev (dropWhile (\<lambda>x. x = c) (rev s))"

text \<open>
  \<^verbatim>\<open>posixpath.basename\<close>: \<^verbatim>\<open>i = p.rfind('/') + 1; return p[i:]\<close>.
  \<open>head_part\<close> is the other half, \<^verbatim>\<open>p[:i]\<close>.
\<close>

definition basename :: "string \<Rightarrow> string" where
  "basename p = rev (takeWhile (\<lambda>c. c \<noteq> CHR ''/'') (rev p))"

definition head_part :: "string \<Rightarrow> string" where
  "head_part p = rev (dropWhile (\<lambda>c. c \<noteq> CHR ''/'') (rev p))"

text \<open>
  \<^verbatim>\<open>posixpath.dirname\<close>:
  \<^verbatim>\<open>head = p[:i]; if head and head != '/'*len(head): head = head.rstrip('/')\<close>.
\<close>

definition dirname :: "string \<Rightarrow> string" where
  "dirname p =
     (let head = head_part p
      in if head \<noteq> [] \<and> \<not> list_all (\<lambda>c. c = CHR ''/'') head
         then rstrip (CHR ''/'') head else head)"

text \<open>
  \<^verbatim>\<open>posixpath.join\<close> of two components: an absolute second component replaces
  the first; otherwise a separator is added unless the first is empty or ends with one.
  \<^verbatim>\<open>os.path.join(a, b, c)\<close> is \<open>join2 (join2 a b) c\<close>.
\<close>

definition join2 :: "string \<Rightarrow> string \<Rightarrow> string" where
  "join2 a b =
     (if b \<noteq> [] \<and> hd b = CHR ''/'' then b
      else if a = [] \<or> last a = CHR ''/'' then a @ b
      else a @ ''/'' @ b)"

text \<open>
  \<^verbatim>\<open>os.path.splitext\<close>: the extension starts at the last dot of the last
  component, unless that component has no dot or only dots before it.
\<close>

definition splitext :: "string \<Rightarrow> string \<times> string" where
  "splitext p =
     (let name = basename p;
          ext = rev (takeWhile (\<lambda>c. c \<noteq> CHR ''.'') (rev name));
          stem = rev (drop 1 (dropWhile (\<lambda>c. c \<noteq> CHR ''.'') (rev name)))
      in if CHR ''.'' \<in> set name \<and> \<not> list_all (\<lambda>c. c = CHR ''.'') stem
         then (head_part p @ stem, CHR ''.'' # ext)
         else (p, []))"

subsection \<open>Rendering\<close>

text \<open>
  Python's \<^verbatim>\<open>str\<close> of an integer, in decimal, and of a list of strings that need no
  escaping (\<^verbatim>\<open>['pdf', 'md']\<close>); \<^verbatim>\<open>sep.join(xs)\<close> is \<open>intercalate sep xs\<close>.
\<close>

fun show_nat :: "nat \<Rightarrow> string" where
  "show_nat n =
     (if n < 10 then [''0123456789'' ! n]
      else show_nat (n div 10) @ [''0123456789'' ! (n mod 10)])"

declare show_nat.simps [simp del]

definition show_int :: "int \<Rightarrow> string" where
  "show_int i = (if i < 0 then ''-'' @ show_nat (nat (- i)) else show_nat (nat i))"

fun intercalate :: "string \<Rightarrow> string list \<Rightarrow> string" where
  "intercalate s [] = []"
| "intercalate s [x] = x"
| "intercalate s (x # y # ys) = x @ s @ intercalate s (y # ys)"

definition show_list :: "string list \<Rightarrow> string" where
  "show_list xs = ''['' @ intercalate '', '' (map (\<lambda>x. [CHR 0x27] @ x @ [CHR 0x27]) xs) @ '']''"

subsection \<open>Atomic write\<close>

text \<open>
  Regular files reached by path: the store maps a path to the content of the file
  there. \<^verbatim>\<open>atomic_write\<close> opens the temporary sibling (creating or truncating
  it), writes, and replaces the destination; the \<^verbatim>\<open>except\<close> branch removes the
  temporary file if it exists, swallowing a failure of that removal, and re-raises.
  The environment says which operation raises (with the message of the exception),
  how many characters had reached the temporary file when a write raises, and whether
  \<^verbatim>\<open>os.remove(tmp_path)\<close> raises in the handler.
\<close>

type_synonym store = "string \<rightharpoonup> string"

datatype write_fault = NoFault | OpenFails string | WriteFails nat string | ReplaceFails string

record write_env =
  fault :: write_fault
  remove_fails :: bool

text \<open>
  \<^verbatim>\<open>dir_name = os.path.dirname(path) or "."\<close>,
  \<^verbatim>\<open>tmp_path = os.path.join(dir_name, f".{base_name}.tmp")\<close>; and the handler
  \<^verbatim>\<open>if os.path.exists(tmp_path): try: os.remove(tmp_path) except Exception: pass\<close>.
\<close>

definition tmp_path :: "string \<Rightarrow> string" where
  "tmp_path path =
     (let dir_name = (if dirname path = [] then ''.'' else dirname path);
          base_name = basename path
      in join2 dir_name (''.'' @ base_name @ ''.tmp''))"

definition cleanup_tmp :: "write_env \<Rightarrow> string \<Rightarrow> store \<Rightarrow> store" where
  "cleanup_tmp env tmp s =
     (if s tmp \<noteq> None then (if remove_fails env then s else s(tmp := None)) else s)"

text \<open>
  The result (\<open>None\<close>, or \<open>Some\<close> message of the exception raised) and the store after
  each file-system operation, in order. \<open>atomic_write\<close> is the result with the last of
  these stores.
\<close>

definition atomic_write_steps ::
  "write_env \<Rightarrow> store \<Rightarrow> string \<Rightarrow> string \<Rightarrow> string option \<times> store list" where
  "atomic_write_steps env s path content =
     (let tmp = tmp_path path;
          opened = s(tmp \<mapsto> []);
          written = s(tmp \<mapsto> content)
      in case fault env of
           OpenFails e \<Rightarrow> (Some e, [cleanup_tmp env tmp s])
         | WriteFails k e \<Rightarrow>
             (let partial = s(tmp \<mapsto> take k content)
              in (Some e, [opened, partial, cleanup_tmp env tmp partial]))
         | ReplaceFails e \<Rightarrow> (Some e, [opened, written, cleanup_tmp env tmp written])
         | NoFault \<Rightarrow> (None, [opened, written, (written(tmp := None))(path \<mapsto> content)]))"

definition atomic_write ::
  "write_env \<Rightarrow> store \<Rightarrow> string \<Rightarrow> string \<Rightarrow> string option \<times> store" where
  "atomic_write env s path content =
     (case atomic_write_steps env s path content of (r, steps) \<Rightarrow> (r, last (s # steps)))"

subsection \<open>Directory trees and file discovery\<close>

text \<open>
  The directories the pipeline rotates and walks are trees: a regular file with its
  content, or a directory with its entries in the order \<^verbatim>\<open>os.listdir\<close> and
  \<^verbatim>\<open>os.scandir\<close> return them. The file system maps the path of a top-level
  directory (\<^verbatim>\<open>./inputs\<close>, \<^verbatim>\<open>./inputs_queue\<close>, ...) to its tree; these paths are
  taken not to lie inside one another, and there are no symbolic links.
\<close>

datatype node = File string | Dir "(string \<times> node) list"

type_synonym tree_fs = "string \<rightharpoonup> node"

fun is_dir :: "node \<Rightarrow> bool" where
  "is_dir (Dir es) = True"
| "is_dir (File c) = False"

text \<open>
  \<^verbatim>\<open>os.walk(input_dir)\<close>, top down: for every directory its path and the names of
  its non-directory entries, then the same for each sub-directory. The path is kept
  relative to \<^verbatim>\<open>input_dir\<close> (the root itself is the empty path), which is what
  \<^verbatim>\<open>abs_path_obj.relative_to(input_root)\<close> recovers in the source.
\<close>

fun walk :: "string \<Rightarrow> node \<Rightarrow> (string \<times> string list) list" where
  "walk root (File c) = []"
| "walk root (Dir es) =
     (root, map fst (filter (\<lambda>e. \<not> is_dir (snd e)) es))
     # concat (map (\<lambda>(name, t). walk (join2 root name) t) (filter (\<lambda>e. is_dir (snd e)) es))"

text \<open>
  The body of the inner loop of \<^verbatim>\<open>list_input_files\<close> for one file name: nothing
  unless \<^verbatim>\<open>os.path.splitext(name)\<close> gives an extension whose lower-cased,
  dot-stripped form is in \<^verbatim>\<open>allowed\<close>; otherwise the pair of the absolute and the
  relative path.
\<close>

definition candidate :: "string set \<Rightarrow> string \<Rightarrow> string \<Rightarrow> string \<Rightarrow> (string \<times> string) list" where
  "candidate allowed input_root root name =
     (let ext = snd (splitext name)
      in if ext \<noteq> [] then
           (let ext' = lstrip (CHR ''.'') (lower ext)
            in if ext' \<in> allowed
               then (let rel_path = join2 root name in [(join2 input_root rel_path, rel_path)])
               else [])
         else [])"

text \<open>
  \<^verbatim>\<open>list_input_files\<close>. \<open>resolve\<close> stands for \<^verbatim>\<open>Path(input_dir).resolve()\<close>;
  \<^verbatim>\<open>sorted(files, key=lambda x: x[1])\<close> is a stable sort by the relative path, in the
  order of the characters' codes.
\<close>

definition list_input_files ::
  "(string \<Rightarrow> string) \<Rightarrow> tree_fs \<Rightarrow> string \<Rightarrow> string list \<Rightarrow> (string \<times> string) list" where
  "list_input_files resolve fs input_dir allowed_types =
     (case fs input_dir of
        None \<Rightarrow> []
      | Some t \<Rightarrow>
          (let input_root = resolve input_dir;
               allowed = set (map lower allowed_types);
               files = concat (map (\<lambda>(root, filenames).
                          concat (map (candidate allowed input_root root) filenames))
                        (walk [] t))
           in sort_key snd files))"

subsection \<open>Directory operations and rotation\<close>

text \<open>
  What the operating system does during a rotation: the time stamp, whether
  \<^verbatim>\<open>shutil.move\<close> of the inputs directory raises, whether the fallback
  \<^verbatim>\<open>shutil.rmtree\<close> raises, and for each entry moved by \<^verbatim>\<open>move_contents\<close> which of
  its operations raises, if any. An operation that raises is taken to leave the file
  system as it found it.
\<close>

datatype entry_fault = NoEntryFault | RemoveDstFails | CopyFails | RemoveSrcFails

record rotate_env =
  stamp :: string
  move_fault :: "string option"
  rmtree_fails :: bool
  entry_faults :: "string \<Rightarrow> string \<Rightarrow> entry_fault"

text \<open>
  \<^verbatim>\<open>ensure_dir\<close>, that is \<^verbatim>\<open>os.makedirs(path, exist_ok=True)\<close>: it raises
  \<^verbatim>\<open>FileExistsError\<close> when the path is a regular file.
\<close>

definition ensure_dir :: "tree_fs \<Rightarrow> string \<Rightarrow> string + tree_fs" where
  "ensure_dir fs path =
     (case fs path of
        None \<Rightarrow> Inr (fs(path \<mapsto> Dir []))
      | Some (Dir es) \<Rightarrow> Inr fs
      | Some (File c) \<Rightarrow> Inl (''FileExistsError: '' @ path))"

text \<open>
  The entry \<open>name\<close> of the directory at \<open>d\<close>: looking it up, removing it
  (\<^verbatim>\<open>shutil.rmtree\<close> or \<^verbatim>\<open>os.remove\<close>), adding it (\<^verbatim>\<open>shutil.copytree\<close> or
  \<^verbatim>\<open>shutil.copy2\<close>).
\<close>

definition lookup_entry :: "tree_fs \<Rightarrow> string \<Rightarrow> string \<Rightarrow> node option" where
  "lookup_entry fs d name = (case fs d of Some (Dir es) \<Rightarrow> map_of es name | _ \<Rightarrow> None)"

definition remove_entry :: "tree_fs \<Rightarrow> string \<Rightarrow> string \<Rightarrow> tree_fs" where
  "remove_entry fs d name =
     (case fs d of Some (Dir es) \<Rightarrow> fs(d \<mapsto> Dir (filter (\<lambda>e. fst e \<noteq> name) es)) | _ \<Rightarrow> fs)"

definition add_entry :: "tree_fs \<Rightarrow> string \<Rightarrow> string \<Rightarrow> node \<Rightarrow> tree_fs" where
  "add_entry fs d name t =
     (case fs d of Some (Dir es) \<Rightarrow> fs(d \<mapsto> Dir (es @ [(name, t)])) | _ \<Rightarrow> fs)"

text \<open>
  One round of the loop of \<^verbatim>\<open>move_contents\<close>, on the file system and the count of
  moved entries: an existing destination is removed when \<^verbatim>\<open>overwrite\<close> holds and
  skipped otherwise; the entry is copied, the source removed, the count increased. An
  exception at any point ends the round (the handler only logs it). The program always
  calls \<^verbatim>\<open>move_contents\<close> with \<^verbatim>\<open>preserve_metadata=True\<close>, the branch modelled.
\<close>

definition move_entry ::
  "rotate_env \<Rightarrow> bool \<Rightarrow> string \<Rightarrow> string \<Rightarrow> string \<Rightarrow> tree_fs \<times> nat \<Rightarrow> tree_fs \<times> nat" where
  "move_entry env overwrite src_dir dst_dir entry s =
     (case s of (fs, moved_count) \<Rightarrow>
        (let flt = entry_faults env src_dir entry;
             dst_exists = (lookup_entry fs dst_dir entry \<noteq> None)
         in if dst_exists \<and> \<not> overwrite then (fs, moved_count)
            else if dst_exists \<and> flt = RemoveDstFails then (fs, moved_count)
            else
              (let fs1 = (if dst_exists then remove_entry fs dst_dir entry else fs)
               in case lookup_entry fs1 src_dir entry of
                    None \<Rightarrow> (fs1, moved_count)
                  | Some t \<Rightarrow>
                      if flt = CopyFails then (fs1, moved_count)
                      else
                        (let fs2 = add_entry fs1 dst_dir entry t
                         in if flt = RemoveSrcFails then (fs2, moved_count)
                            else (remove_entry fs2 src_dir entry, moved_count + 1)))))"

text \<open>
  \<^verbatim>\<open>move_contents\<close>: nothing to do when the source directory is missing; otherwise
  the destination is created if need be and every entry listed in the source is moved.
  \<^verbatim>\<open>os.listdir\<close> raises when the source is a regular file.
\<close>

definition move_contents ::
  "rotate_env \<Rightarrow> tree_fs \<Rightarrow> string \<Rightarrow> string \<Rightarrow> bool \<Rightarrow> string + tree_fs \<times> nat" where
  "move_contents env fs src_dir dst_dir overwrite =
     (case fs src_dir of
        None \<Rightarrow> Inr (fs, 0)
      | Some src \<Rightarrow>
          (case ensure_dir fs dst_dir of
             Inl err \<Rightarrow> Inl err
           | Inr fs1 \<Rightarrow>
               (case fs1 src_dir of
                  Some (Dir es) \<Rightarrow>
                    Inr (fold (move_entry env overwrite src_dir dst_dir) (map fst es) (fs1, 0))
                | _ \<Rightarrow> Inl (''NotADirectoryError: '' @ src_dir))))"

text \<open>
  \<^verbatim>\<open>f"./inputs_old_{stamp}"\<close>, and \<^verbatim>\<open>shutil.move(src, dst)\<close>: a rename when the
  destination is free; into the destination when that is a directory (unless it
  already has an entry of that name); onto it when both are regular files.
\<close>

definition old_inputs_name :: "rotate_env \<Rightarrow> string" where
  "old_inputs_name env = ''./inputs_old_'' @ stamp env"

definition shutil_move :: "rotate_env \<Rightarrow> tree_fs \<Rightarrow> string \<Rightarrow> string \<Rightarrow> string + tree_fs" where
  "shutil_move env fs src dst =
     (case move_fault env of
        Some err \<Rightarrow> Inl err
      | None \<Rightarrow>
          (case fs src of
             None \<Rightarrow> Inl (''FileNotFoundError: '' @ src)
           | Some t \<Rightarrow>
               (case fs dst of
                  None \<Rightarrow> Inr ((fs(src := None))(dst \<mapsto> t))
                | Some (Dir ds) \<Rightarrow>
                    if src = dst \<or> map_of ds (basename src) \<noteq> None
                    then Inl (''Destination path already exists'')
                    else Inr ((fs(src := None))(dst \<mapsto> Dir (ds @ [(basename src, t)])))
                | Some (File c) \<Rightarrow>
                    if is_dir t then Inl (''NotADirectoryError: '' @ dst)
                    else Inr ((fs(src := None))(dst \<mapsto> t)))))"

text \<open>
  Step 1 of \<^verbatim>\<open>rotate_inputs\<close>: if the inputs directory exists it is moved to
  \<^verbatim>\<open>./inputs_old_<stamp>\<close>; if the move raises and the inputs path is a directory,
  \<^verbatim>\<open>shutil.rmtree(inputs_dir)\<close> is tried and its failure ignored. The second component
  is \<^verbatim>\<open>old_inputs_path\<close>.
\<close>

definition archive_inputs :: "rotate_env \<Rightarrow> tree_fs \<Rightarrow> string \<Rightarrow> tree_fs \<times> string" where
  "archive_inputs env fs inputs_dir =
     (if fs inputs_dir \<noteq> None then
        (let old_inputs_path = old_inputs_name env
         in case shutil_move env fs inputs_dir old_inputs_path of
              Inr fs1 \<Rightarrow> (fs1, old_inputs_path)
            | Inl err \<Rightarrow>
                (case fs inputs_dir of
                   Some (Dir es) \<Rightarrow>
                     (if rmtree_fails env then fs else fs(inputs_dir := None), old_inputs_path)
                 | _ \<Rightarrow> (fs, old_inputs_path)))
      else (fs, []))"

text \<open>
  Step 2: \<^verbatim>\<open>ensure_dir(inputs_dir)\<close>, then, if the path is still not a directory, its
  removal and a second \<^verbatim>\<open>ensure_dir\<close>.
\<close>

definition recreate_inputs :: "tree_fs \<Rightarrow> string \<Rightarrow> string + tree_fs" where
  "recreate_inputs fs inputs_dir =
     (case ensure_dir fs inputs_dir of
        Inl err \<Rightarrow> Inl err
      | Inr fs1 \<Rightarrow>
          (case fs1 inputs_dir of
             Some (Dir es) \<Rightarrow> Inr fs1
           | Some (File c) \<Rightarrow> ensure_dir (fs1(inputs_dir := None)) inputs_dir
           | None \<Rightarrow> ensure_dir fs1 inputs_dir))"

text \<open>
  \<^verbatim>\<open>rotate_inputs\<close>: steps 1 and 2, then queue to staging and staging to inputs. It
  returns \<^verbatim>\<open>(old_inputs_path, queue_count, staging_count)\<close>; the model returns the file
  system as well, or the message of the exception that escapes.
\<close>

definition rotate_inputs ::
  "rotate_env \<Rightarrow> tree_fs \<Rightarrow> string \<Rightarrow> string \<Rightarrow> string
     \<Rightarrow> string + tree_fs \<times> (string \<times> nat \<times> nat)" where
  "rotate_inputs env fs inputs_dir inputs_queue_dir inputs_staging_dir =
     (case archive_inputs env fs inputs_dir of
        (fs1, old_inputs_path) \<Rightarrow>
          (case recreate_inputs fs1 inputs_dir of
             Inl err \<Rightarrow> Inl err
           | Inr fs2 \<Rightarrow>
               (case move_contents env fs2 inputs_queue_dir inputs_staging_dir True of
                  Inl err \<Rightarrow> Inl err
                | Inr (fs3, queue_count) \<Rightarrow>
                    (case move_contents env fs3 inputs_staging_dir inputs_dir True of
                       Inl err \<Rightarrow> Inl err
                     | Inr (fs4, staging_count) \<Rightarrow>
                         Inr (fs4, (old_inputs_path, queue_count, staging_count))))))"

subsection \<open>Conversion with retry\<close>

text \<open>
  The external converter. A call of an export method raises, returns \<^verbatim>\<open>None\<close>, or
  returns content; a document is the list of its \<^verbatim>\<open>export_to_\<close> attributes, each
  callable (with its outcome) or not; \<^verbatim>\<open>converter.convert\<close> raises or returns a
  result whose \<^verbatim>\<open>document\<close> attribute may be \<^verbatim>\<open>None\<close>. For one attempt the
  environment gives the outcome of the conversion, of \<^verbatim>\<open>os.makedirs\<close> for the output
  directory, and of the atomic write.
\<close>

datatype export_outcome = ExportRaises string | ExportNone | ExportContent string

datatype document = Document (attrs: "(string \<times> export_outcome option) list")

datatype convert_outcome = ConvertRaises string | ConvertResult "document option"

record attempt_env =
  convert_result :: convert_outcome
  makedirs_exn :: "string option"
  write_fault_env :: write_env

text \<open>
  The class \<^verbatim>\<open>ConversionStats\<close> (its start time is left out: the run time is rendered
  by the environment), and the state a run threads through its calls: the statistics, the
  lines of the run report, the files written, and logs of the calls of
  \<^verbatim>\<open>atomic_write\<close>, \<^verbatim>\<open>converter.convert\<close> and \<^verbatim>\<open>time.sleep\<close> made so far.
\<close>

record ConversionStats =
  total_files :: nat
  successful :: nat
  failed :: nat
  skipped :: nat
  total_size_bytes :: nat
  failed_files :: "(string \<times> string) list"

record state =
  stats :: ConversionStats
  run_report :: "string list"
  files :: store
  atomic_writes :: "(string \<times> string) list"
  convert_calls :: "string list"
  sleeps :: nat

definition new_stats :: ConversionStats where
  "new_stats = \<lparr>total_files = 0, successful = 0, failed = 0, skipped = 0,
                 total_size_bytes = 0, failed_files = []\<rparr>"

definition initial_state :: state where
  "initial_state = \<lparr>stats = new_stats, run_report = [], files = Map.empty,
                     atomic_writes = [], convert_calls = [], sleeps = 0\<rparr>"

definition fault_message :: "write_fault \<Rightarrow> string option" where
  "fault_message f =
     (case f of NoFault \<Rightarrow> None | OpenFails e \<Rightarrow> Some e
      | WriteFails k e \<Rightarrow> Some e | ReplaceFails e \<Rightarrow> Some e)"

text \<open>
  A call of \<^verbatim>\<open>atomic_write\<close> from the pipeline: on the files of the state, and logged.
\<close>

definition do_atomic_write :: "write_env \<Rightarrow> string \<Rightarrow> string \<Rightarrow> state \<Rightarrow> string option \<times> state" where
  "do_atomic_write env path content st =
     (case atomic_write env (files st) path content of
        (r, s') \<Rightarrow> (r, st\<lparr>files := s', atomic_writes := atomic_writes st @ [(path, content)]\<rparr>))"

text \<open>
  The \<^verbatim>\<open>try\<close> block of \<^verbatim>\<open>convert_document\<close> after the retry sleep: \<open>Inr\<close> is a
  \<^verbatim>\<open>return\<close> of the function, \<open>Inl\<close> an exception caught by
  \<^verbatim>\<open>except Exception as e\<close>, with the text of \<^verbatim>\<open>e\<close>.
\<close>

definition attempt_body ::
  "attempt_env \<Rightarrow> string \<Rightarrow> string \<Rightarrow> string \<Rightarrow> state \<Rightarrow> (string + bool \<times> string) \<times> state" where
  "attempt_body a input_path output_path output_ext st =
     (let st1 = st\<lparr>convert_calls := convert_calls st @ [input_path]\<rparr>
      in case convert_result a of
           ConvertRaises e \<Rightarrow> (Inl e, st1)
         | ConvertResult None \<Rightarrow>
             (Inr (False, ''Conversion result has no 'document' attribute''), st1)
         | ConvertResult (Some doc) \<Rightarrow>
             (case map_of EXPORT_METHODS output_ext of
                None \<Rightarrow>
                  (Inr (False, ''No export method mapping for output type: '' @ output_ext), st1)
              | Some export_method_name \<Rightarrow>
                  (case map_of (attrs doc) export_method_name of
                     Some (Some export_method) \<Rightarrow>
                       (case export_method of
                          ExportRaises e \<Rightarrow> (Inl e, st1)
                        | ExportNone \<Rightarrow> (Inr (False, ''Export method returned None''), st1)
                        | ExportContent exported_content \<Rightarrow>
                            if exported_content = []
                            then (Inr (False, ''Export method returned empty content''), st1)
                            else (case makedirs_exn a of
                                    Some e \<Rightarrow> (Inl e, st1)
                                  | None \<Rightarrow>
                                      (case do_atomic_write (write_fault_env a) output_path exported_content st1 of
                                         (Some e, st2) \<Rightarrow> (Inl e, st2)
                                       | (None, st2) \<Rightarrow> (Inr (True, ''Success''), st2))))
                   | _ \<Rightarrow>
                       (Inr (False, ''Document missing method '' @ [CHR 0x27] @ export_method_name
                               @ [CHR 0x27] @ ''. Available: ''
                               @ show_list (filter (\<lambda>a. take 10 a = ''export_to_'') (map fst (attrs doc)))),
                        st1))))"

text \<open>
  The loop \<^verbatim>\<open>for attempt in range(retry_attempts + 1)\<close> over the attempts still to
  make, and \<^verbatim>\<open>convert_document\<close>.
\<close>

fun convert_loop ::
  "(nat \<Rightarrow> attempt_env) \<Rightarrow> string \<Rightarrow> string \<Rightarrow> string \<Rightarrow> int \<Rightarrow> nat list \<Rightarrow> state
     \<Rightarrow> (bool \<times> string) \<times> state" where
  "convert_loop env input_path output_path output_ext retry_attempts [] st =
     ((False, ''Max retries reached''), st)"
| "convert_loop env input_path output_path output_ext retry_attempts (attempt # rest) st =
     (let st1 = (if attempt > 0 then st\<lparr>sleeps := sleeps st + 1\<rparr> else st)
      in case attempt_body (env attempt) input_path output_path output_ext st1 of
           (Inr r, st2) \<Rightarrow> (r, st2)
         | (Inl e, st2) \<Rightarrow>
             (if int attempt < retry_attempts
              then convert_loop env input_path output_path output_ext retry_attempts rest st2
              else ((False, ''Conversion error: '' @ e), st2)))"

definition convert_document ::
  "(nat \<Rightarrow> attempt_env) \<Rightarrow> string \<Rightarrow> string \<Rightarrow> string \<Rightarrow> int \<Rightarrow> state
     \<Rightarrow> (bool \<times> string) \<times> state" where
  "convert_document env input_path output_path output_ext retry_attempts st =
     convert_loop env input_path output_path output_ext retry_attempts
       [0..<nat (retry_attempts + 1)] st"

subsection \<open>Statistics and the conversion phase\<close>

text \<open>
  The methods \<^verbatim>\<open>add_success\<close>, \<^verbatim>\<open>add_failure\<close> and \<^verbatim>\<open>add_skip\<close>.
\<close>

definition add_success :: "nat \<Rightarrow> ConversionStats \<Rightarrow> ConversionStats" where
  "add_success size_bytes s =
     s\<lparr>successful := successful s + 1, total_size_bytes := total_size_bytes s + size_bytes\<rparr>"

definition add_failure :: "string \<Rightarrow> string \<Rightarrow> ConversionStats \<Rightarrow> ConversionStats" where
  "add_failure filepath reason s =
     s\<lparr>failed := failed s + 1, failed_files := failed_files s @ [(filepath, reason)]\<rparr>"

definition add_skip :: "ConversionStats \<Rightarrow> ConversionStats" where
  "add_skip s = s\<lparr>skipped := skipped s + 1\<rparr>"

text \<open>
  What a run of \<^verbatim>\<open>process_conversions\<close> meets: file sizes
  (\<^verbatim>\<open>os.path.getsize\<close>, \<open>None\<close> when it raises), the renderings that involve floating
  point or the clock (\<^verbatim>\<open>format_bytes\<close>, the run time, the time of generation, the
  stamp in the report's name), \<^verbatim>\<open>Path.resolve\<close>, whether \<^verbatim>\<open>DocumentConverter()\<close>
  raises, the outcome of each conversion attempt by input path, output type and attempt
  number, and the outcomes of \<^verbatim>\<open>ensure_dir(outputs_dir)\<close> and of the atomic write of the
  report. The configuration is the resolved dictionary, with the four directories as
  fields of their own and an integer size limit.
\<close>

record env =
  getsize :: "string \<Rightarrow> nat option"
  format_bytes :: "nat \<Rightarrow> string"
  runtime :: string
  generated :: string
  report_stamp :: string
  resolve :: "string \<Rightarrow> string"
  converter_init :: "string option"
  conversions :: "string \<Rightarrow> string \<Rightarrow> nat \<Rightarrow> attempt_env"
  report_ensure_dir :: "string option"
  report_write :: write_env

record config =
  input_types :: "string list"
  output_types :: "string list"
  max_file_size_mb :: int
  retry_attempts :: int
  inputs :: string
  outputs :: string
  inputs_queue :: string
  inputs_staging :: string

text \<open>
  \<^verbatim>\<open>DEFAULT_CONFIG\<close> (the retry delay only reaches \<^verbatim>\<open>time.sleep\<close>).
\<close>

definition DEFAULT_CONFIG :: config where
  "DEFAULT_CONFIG =
     \<lparr>input_types = [''pdf''], output_types = [''md''], max_file_size_mb = 100,
      retry_attempts = 2, inputs = ''./inputs'', outputs = ''./outputs'',
      inputs_queue = ''./inputs_queue'', inputs_staging = ''./inputs_staging''\<rparr>"

text \<open>
  \<^verbatim>\<open>get_file_size\<close> returns 0 when the size cannot be read. In
  \<^verbatim>\<open>check_file_size\<close> the test \<^verbatim>\<open>size_bytes / (1024 * 1024) > max_size_mb\<close> is
  exact for an integer limit, the division being by a power of two.
\<close>

definition get_file_size :: "env \<Rightarrow> string \<Rightarrow> nat" where
  "get_file_size e filepath = (case getsize e filepath of Some n \<Rightarrow> n | None \<Rightarrow> 0)"

definition check_file_size :: "env \<Rightarrow> string \<Rightarrow> int \<Rightarrow> bool \<times> string" where
  "check_file_size e filepath max_size_mb =
     (let size_bytes = get_file_size e filepath
      in if int size_bytes > max_size_mb * (1024 * 1024)
         then (False, ''File size '' @ format_bytes e size_bytes @ '' exceeds limit of ''
                        @ show_int max_size_mb @ ''MB'')
         else (True, ''Size: '' @ format_bytes e size_bytes))"

text \<open>
  \<^verbatim>\<open>ConversionStats.summary\<close>.
\<close>

definition summary :: "env \<Rightarrow> ConversionStats \<Rightarrow> string list" where
  "summary e s =
     [replicate 70 (CHR ''=''),
      ''CONVERSION STATISTICS'',
      replicate 70 (CHR ''=''),
      ''Total files discovered: '' @ show_nat (total_files s),
      ''Successful conversions: '' @ show_nat (successful s),
      ''Failed conversions: '' @ show_nat (failed s),
      ''Skipped (same type): '' @ show_nat (skipped s),
      ''Total data processed: '' @ format_bytes e (total_size_bytes s),
      ''Total runtime: '' @ runtime e]
     @ (if failed_files s \<noteq> []
        then ['''', ''Failed Files:'']
             @ map (\<lambda>(filepath, reason). ''  - '' @ filepath @ '': '' @ reason) (failed_files s)
        else [])
     @ [replicate 70 (CHR ''='')]"

text \<open>
  The body of the loop \<^verbatim>\<open>for output_ext in output_types\<close> of
  \<^verbatim>\<open>process_conversions\<close>.
\<close>

definition process_output ::
  "env \<Rightarrow> config \<Rightarrow> bool \<Rightarrow> string \<Rightarrow> string \<Rightarrow> string \<Rightarrow> string \<Rightarrow> string \<Rightarrow> string
     \<Rightarrow> state \<Rightarrow> state" where
  "process_output e c dry_run input_abs_path input_rel_path input_filename_no_ext input_ext
       rel_dir output_ext st =
     (if output_ext = input_ext then st\<lparr>stats := add_skip (stats st)\<rparr>
      else
        (let output_filename = generate_output_filename input_filename_no_ext input_ext output_ext;
             output_path = (if rel_dir \<noteq> [] then join2 (join2 (outputs c) rel_dir) output_filename
                            else join2 (outputs c) output_filename)
         in if dry_run then
              st\<lparr>stats := add_success 0 (stats st),
                 run_report := run_report st
                    @ [''[DRY RUN] '' @ input_rel_path @ '' -> '' @ output_path]\<rparr>
            else
              (case convert_document (conversions e input_abs_path output_ext) input_abs_path
                      output_path output_ext (retry_attempts c) st of
                 ((success, message), st') \<Rightarrow>
                   if success then
                     st'\<lparr>stats := add_success (get_file_size e input_abs_path) (stats st'),
                         run_report := run_report st'
                            @ [''SUCCESS: '' @ input_rel_path @ '' -> '' @ output_path]\<rparr>
                   else
                     st'\<lparr>stats := add_failure input_rel_path message (stats st'),
                         run_report := run_report st'
                            @ [''FAILED: '' @ input_rel_path @ '' -> '' @ output_path
                                 @ '' ('' @ message @ '')'']\<rparr>)))"

text \<open>
  The body of the loop over the discovered files: the size check, whose failure is
  recorded with \<^verbatim>\<open>stats.add_failure\<close> and ends the round, then the loop over the
  output types.
\<close>

definition process_file :: "env \<Rightarrow> config \<Rightarrow> bool \<Rightarrow> string \<times> string \<Rightarrow> state \<Rightarrow> state" where
  "process_file e c dry_run f st =
     (case f of (input_abs_path, input_rel_path) \<Rightarrow>
        (case check_file_size e input_abs_path (max_file_size_mb c) of
           (is_valid, size_msg) \<Rightarrow>
             if \<not> is_valid then
               st\<lparr>stats := add_failure input_rel_path size_msg (stats st),
                  run_report := run_report st
                     @ [''SKIPPED (size): '' @ input_rel_path @ '' - '' @ size_msg]\<rparr>
             else
               (let input_filename_no_ext = fst (splitext (basename input_rel_path));
                    input_ext = lstrip (CHR ''.'') (lower (snd (splitext input_rel_path)));
                    rel_dir = dirname input_rel_path
                in fold (process_output e c dry_run input_abs_path input_rel_path
                           input_filename_no_ext input_ext rel_dir)
                     (output_types c) st)))"

text \<open>
  The first lines of the run report, and its path.
\<close>

definition report_header :: "env \<Rightarrow> config \<Rightarrow> bool \<Rightarrow> nat \<Rightarrow> string list" where
  "report_header e c dry_run n =
     [''Document Conversion Run Report'',
      ''Generated: '' @ generated e,
      ''Mode: '' @ (if dry_run then ''DRY RUN'' else ''PRODUCTION''),
      '''',
      ''Configuration:'',
      ''  Input types: '' @ show_list (input_types c),
      ''  Output types: '' @ show_list (output_types c),
      ''  Max file size: '' @ show_int (max_file_size_mb c) @ ''MB'',
      ''  Inputs directory: '' @ inputs c,
      ''  Outputs directory: '' @ outputs c,
      ''  Retry attempts: '' @ show_int (retry_attempts c),
      '''',
      ''Files discovered: '' @ show_nat n,
      '''']"

definition report_path :: "env \<Rightarrow> config \<Rightarrow> string" where
  "report_path e c = join2 (outputs c) (''run_report_'' @ report_stamp e @ ''.txt'')"

text \<open>
  The conversion loop, started with the header as the report so far; then the end of
  \<^verbatim>\<open>process_conversions\<close>: the summary is added to the report, and the report is
  written under \<^verbatim>\<open>try\<close>, after \<^verbatim>\<open>ensure_dir(outputs_dir)\<close>; an exception of either
  is logged only.
\<close>

definition conversion_phase ::
  "env \<Rightarrow> config \<Rightarrow> bool \<Rightarrow> (string \<times> string) list \<Rightarrow> state \<Rightarrow> state" where
  "conversion_phase e c dry_run input_files st =
     fold (process_file e c dry_run) input_files
       (st\<lparr>run_report := report_header e c dry_run (length input_files)\<rparr>)"

definition save_report :: "env \<Rightarrow> config \<Rightarrow> state \<Rightarrow> state" where
  "save_report e c st =
     (let st1 = st\<lparr>run_report := run_report st @ [''''] @ summary e (stats st)\<rparr>
      in case report_ensure_dir e of
           Some err \<Rightarrow> st1
         | None \<Rightarrow>
             snd (do_atomic_write (report_write e) (report_path e c)
                    (intercalate [CHR 0x0A] (run_report st1)) st1))"

text \<open>
  \<^verbatim>\<open>process_conversions\<close>. It returns the statistics; the model returns the whole
  state, or the message of the exception raised by \<^verbatim>\<open>DocumentConverter()\<close>.
\<close>

definition process_conversions ::
  "env \<Rightarrow> config \<Rightarrow> bool \<Rightarrow> tree_fs \<Rightarrow> state \<Rightarrow> string + state" where
  "process_conversions e c dry_run fs st =
     (case (if dry_run then None else converter_init e) of
        Some err \<Rightarrow> Inl err
      | None \<Rightarrow>
          (let input_files = list_input_files (resolve e) fs (inputs c) (input_types c);
               st1 = st\<lparr>stats := new_stats\<lparr>total_files := length input_files\<rparr>\<rparr>
           in if length input_files = 0 then Inr st1
              else Inr (save_report e c (conversion_phase e c dry_run input_files st1))))"

subsection \<open>The entry point\<close>

text \<open>
  The command line, as far as it changes the control flow, and what \<^verbatim>\<open>main\<close> meets
  outside the program: the stamp and the failure of the snapshot, the environment of the
  rotation and that of the conversions.
\<close>

record args =
  arg_save_config :: bool
  arg_dry_run :: bool

record main_env =
  snapshot_stamp :: string
  snapshot_fault :: "string option"
  rotation :: rotate_env
  processing :: env

text \<open>
  \<^verbatim>\<open>validate_config\<close>, with \<open>Inl\<close> for \<^verbatim>\<open>raise ValueError\<close>.
\<close>

definition validate_config :: "config \<Rightarrow> string + unit" where
  "validate_config c =
     (if input_types c = [] \<or> output_types c = []
      then Inl ''Input and output types must not be empty.''
      else if set (input_types c) = set (output_types c)
      then Inl ''Input types cannot be identical to output types.''
      else if filter (\<lambda>t. t \<notin> set (map fst EXPORT_METHODS)) (input_types c) \<noteq> []
      then Inl ''Unsupported input types''
      else if filter (\<lambda>t. t \<notin> set (map fst EXPORT_METHODS)) (output_types c) \<noteq> []
      then Inl ''Unsupported output types''
      else if max_file_size_mb c \<le> 0
      then Inl ''max_file_size_mb must be positive''
      else Inr ())"

text \<open>
  \<^verbatim>\<open>snapshot_directory\<close>: a copy of the source under \<^verbatim>\<open>./<prefix>_<stamp>\<close>, or an
  empty directory there when the source is missing; on \<^verbatim>\<open>FileExistsError\<close> the copy
  goes to the same name followed by \<^verbatim>\<open>_1\<close>. Any other exception escapes.
\<close>

definition snapshot_directory ::
  "main_env \<Rightarrow> tree_fs \<Rightarrow> string \<Rightarrow> string \<Rightarrow> string + tree_fs \<times> string" where
  "snapshot_directory me fs src_dir pre =
     (let dest_dir = ''./'' @ pre @ ''_'' @ snapshot_stamp me
      in case snapshot_fault me of
           Some err \<Rightarrow> Inl err
         | None \<Rightarrow>
             (case fs src_dir of
                Some (Dir es) \<Rightarrow>
                  (case fs dest_dir of
                     None \<Rightarrow> Inr (fs(dest_dir \<mapsto> Dir es), dest_dir)
                   | Some t \<Rightarrow>
                       (let alt = dest_dir @ ''_1''
                        in case fs alt of
                             None \<Rightarrow> Inr (fs(alt \<mapsto> Dir es), alt)
                           | Some t' \<Rightarrow> Inl (''FileExistsError: '' @ alt)))
              | Some (File c) \<Rightarrow> Inl (''NotADirectoryError: '' @ src_dir)
              | None \<Rightarrow>
                  (case fs dest_dir of
                     None \<Rightarrow> Inr (fs(dest_dir \<mapsto> Dir []), dest_dir)
                   | Some (Dir ds) \<Rightarrow> Inr (fs, dest_dir)
                   | Some (File c) \<Rightarrow> Inl (''FileNotFoundError: '' @ src_dir))))"

text \<open>
  The \<^verbatim>\<open>try\<close> block of \<^verbatim>\<open>main\<close> up to the rotation, for the configuration as loaded
  and overridden from the command line; then the whole block. \<open>Inl\<close> is an exception,
  which \<^verbatim>\<open>main\<close> turns into the exit status 1.
\<close>

definition setup_and_rotate :: "args \<Rightarrow> main_env \<Rightarrow> config \<Rightarrow> tree_fs \<Rightarrow> string + tree_fs" where
  "setup_and_rotate a me c fs =
     (case validate_config c of
        Inl err \<Rightarrow> Inl err
      | Inr u \<Rightarrow>
     (case ensure_dir fs (outputs c) of
        Inl err \<Rightarrow> Inl err
      | Inr fs1 \<Rightarrow>
     (case ensure_dir fs1 (inputs_queue c) of
        Inl err \<Rightarrow> Inl err
      | Inr fs2 \<Rightarrow>
     (case ensure_dir fs2 (inputs_staging c) of
        Inl err \<Rightarrow> Inl err
      | Inr fs3 \<Rightarrow>
     (case (if \<not> arg_dry_run a then snapshot_directory me fs3 (outputs c) ''outputs''
            else Inr (fs3, [])) of
        Inl err \<Rightarrow> Inl err
      | Inr (fs4, outputs_snapshot) \<Rightarrow>
     (case rotate_inputs (rotation me) fs4 (inputs c) (inputs_queue c) (inputs_staging c) of
        Inl err \<Rightarrow> Inl err
      | Inr (fs5, rotated) \<Rightarrow> Inr fs5))))))"

definition run_pipeline ::
  "args \<Rightarrow> main_env \<Rightarrow> config \<Rightarrow> tree_fs \<Rightarrow> store \<Rightarrow> string + tree_fs \<times> state" where
  "run_pipeline a me c fs out_files =
     (case setup_and_rotate a me c fs of
        Inl err \<Rightarrow> Inl err
      | Inr fs5 \<Rightarrow>
          (case process_conversions (processing me) c (arg_dry_run a) fs5
                  (initial_state\<lparr>files := out_files\<rparr>) of
             Inl err \<Rightarrow> Inl err
           | Inr st \<Rightarrow> Inr (fs5, st)))"

text \<open>
  \<^verbatim>\<open>main\<close>: \<^verbatim>\<open>return 0 if stats.failed == 0 else 1\<close>, and \<^verbatim>\<open>return 1\<close> in
  the handler.
\<close>

definition main :: "args \<Rightarrow> main_env \<Rightarrow> config \<Rightarrow> tree_fs \<Rightarrow> store \<Rightarrow> int" where
  "main a me c fs out_files =
     (if arg_save_config a then 0
      else case run_pipeline a me c fs out_files of
             Inl err \<Rightarrow> 1
           | Inr (fs', st) \<Rightarrow> if failed (stats st) = 0 then 0 else 1)"

section \<open>Notions used in the statements\<close>

subsection \<open>The files of a tree\<close>








subsection \<open>Attempts, files and runs\<close>

text \<open>
  An attempt in which the conversion and the export succeed, with content that is not
  empty, the output directory is there, and the atomic write raises \<open>e\<close>.
\<close>

definition export_ok_write_fails :: "attempt_env \<Rightarrow> string \<Rightarrow> string \<Rightarrow> bool" where
  "export_ok_write_fails a output_ext e =
     (case convert_result a of
        ConvertResult (Some doc) \<Rightarrow>
          (case map_of EXPORT_METHODS output_ext of
             Some name \<Rightarrow>
               (case map_of (attrs doc) name of
                  Some (Some (ExportContent c)) \<Rightarrow>
                    c \<noteq> [] \<and> makedirs_exn a = None
                    \<and> fault_message (fault (write_fault_env a)) = Some e
                | _ \<Rightarrow> False)
           | None \<Rightarrow> False)
      | _ \<Rightarrow> False)"

text \<open>
  The file is over the size limit, and the message \<^verbatim>\<open>check_file_size\<close> gives then.
\<close>

definition too_large :: "env \<Rightarrow> config \<Rightarrow> string \<Rightarrow> bool" where
  "too_large e c input_abs_path \<longleftrightarrow>
     int (get_file_size e input_abs_path) > max_file_size_mb c * (1024 * 1024)"

definition size_message :: "env \<Rightarrow> config \<Rightarrow> string \<Rightarrow> string" where
  "size_message e c input_abs_path =
     ''File size '' @ format_bytes e (get_file_size e input_abs_path) @ '' exceeds limit of ''
       @ show_int (max_file_size_mb c) @ ''MB''"

text \<open>
  What one step of the loops adds to the statistics, the report and the call log.
\<close>

definition extends :: "string \<Rightarrow> state \<Rightarrow> state \<Rightarrow> bool" where
  "extends p st st' \<longleftrightarrow>
     set (convert_calls st') \<subseteq> insert p (set (convert_calls st))
     \<and> (\<exists>fs. failed_files (stats st') = failed_files (stats st) @ fs
             \<and> failed (stats st') = failed (stats st) + length fs)
     \<and> (\<exists>ls. run_report st' = run_report st @ ls
             \<and> successful (stats st') + failed (stats st')
                 = successful (stats st) + failed (stats st) + length ls)
     \<and> total_files (stats st') = total_files (stats st)"

text \<open>
  Steps 1 and 2 of the rotation left an empty inputs directory.
\<close>

definition inputs_cleared :: "rotate_env \<Rightarrow> tree_fs \<Rightarrow> string \<Rightarrow> bool" where
  "inputs_cleared env fs inputs_dir =
     (case recreate_inputs (fst (archive_inputs env fs inputs_dir)) inputs_dir of
        Inr fs2 \<Rightarrow> fs2 inputs_dir = Some (Dir [])
      | Inl err \<Rightarrow> False)"

subsection \<open>Sample inputs\<close>

text \<open>
  Sample inputs: a document that exports to Markdown; an attempt that succeeds and one
  whose write fails; an environment in which \<^verbatim>\<open>big.pdf\<close> has 200 MiB and every other
  file 1 KiB; directories before and after a rotation.
\<close>

definition markdown_doc :: document where
  "markdown_doc = Document [(''export_to_markdown'', Some (ExportContent ''# Title''))]"

definition attempt_ok :: attempt_env where
  "attempt_ok = \<lparr>convert_result = ConvertResult (Some markdown_doc), makedirs_exn = None,
                  write_fault_env = \<lparr>fault = NoFault, remove_fails = False\<rparr>\<rparr>"

definition attempt_write_fails :: attempt_env where
  "attempt_write_fails =
     \<lparr>convert_result = ConvertResult (Some markdown_doc), makedirs_exn = None,
      write_fault_env = \<lparr>fault = ReplaceFails ''disk full'', remove_fails = False\<rparr>\<rparr>"

definition sample_env :: env where
  "sample_env =
     \<lparr>getsize = (\<lambda>p. if p = ''/w/inputs/big.pdf'' then Some 209715200 else Some 1024),
      format_bytes = (\<lambda>n. show_nat n @ ''B''),
      runtime = ''0.0s'',
      generated = ''2025-01-01 00:00:00'',
      report_stamp = ''20250101_000000_000'',
      resolve = (\<lambda>p. ''/w'' @ drop 1 p),
      converter_init = None,
      conversions = (\<lambda>p ext k. attempt_ok),
      report_ensure_dir = None,
      report_write = \<lparr>fault = NoFault, remove_fails = False\<rparr>\<rparr>"

definition sample_inputs :: tree_fs where
  "sample_inputs = [''./inputs'' \<mapsto> Dir [(''big.pdf'', File ''''), (''a.pdf'', File ''x'')]]"


definition quiet_rotation :: rotate_env where
  "quiet_rotation = \<lparr>stamp = ''20250101_000000_000'', move_fault = None, rmtree_fails = False,
                      entry_faults = (\<lambda>d n. NoEntryFault)\<rparr>"

definition sample_dirs :: tree_fs where
  "sample_dirs =
     [''./inputs'' \<mapsto> Dir [(''old.pdf'', File ''o'')],
      ''./inputs_queue'' \<mapsto> Dir [(''a.pdf'', File ''a'')],
      ''./inputs_staging'' \<mapsto> Dir []]"

definition rotated_dirs :: tree_fs where
  "rotated_dirs =
     [''./inputs'' \<mapsto> Dir [(''a.pdf'', File ''a'')],
      ''./inputs_queue'' \<mapsto> Dir [],
      ''./inputs_staging'' \<mapsto> Dir [],
      ''./outputs'' \<mapsto> Dir [],
      ''./outputs_20250101_000000_000'' \<mapsto> Dir [],
      ''./inputs_old_20250101_000000_000'' \<mapsto> Dir [(''old.pdf'', File ''o'')]]"

definition sample_main_env :: main_env where
  "sample_main_env =
     \<lparr>snapshot_stamp = ''20250101_000000_000'', snapshot_fault = None,
      rotation = quiet_rotation, processing = sample_env\<rparr>"

definition sample_args :: args where
  "sample_args = \<lparr>arg_save_config = False, arg_dry_run = False\<rparr>"

section \<open>Properties\<close>

subsection \<open>Output naming\<close>

lemma split_at_last_sep:
  assumes "xs @ d # ys = xs' @ d # ys'" and "d \<notin> set ys" and "d \<notin> set ys'"
  shows "xs = xs' \<and> ys = ys'"
  using assms
proof (induction xs arbitrary: xs')
  case Nil
  then show ?case by (cases xs') auto
next
  case (Cons a xs)
  then show ?case by (cases xs') auto
qed

lemma registry_ext_chars:
  assumes "e \<in> set (map fst EXPORT_METHODS)"
  shows "CHR ''.'' \<notin> set e \<and> CHR ''_'' \<notin> set e"
  using assms by (auto simp: EXPORT_METHODS_def)

text \<open>
  C7 (as amended). The generated name determines the triple whenever the target
  extension contains no dot and the source extension contains no underscore; every
  extension of the supported registry is of that kind (\<open>registry_ext_chars\<close>).
\<close>

theorem generate_output_filename_injective:
  assumes "CHR ''.'' \<notin> set t" and "CHR ''.'' \<notin> set t'"
    and "CHR ''_'' \<notin> set s" and "CHR ''_'' \<notin> set s'"
    and "generate_output_filename b s t = generate_output_filename b' s' t'"
  shows "b = b' \<and> s = s' \<and> t = t'"
proof -
  from assms(5)
  have "(b @ ''_from_'' @ s) @ CHR ''.'' # t = (b' @ ''_from_'' @ s') @ CHR ''.'' # t'"
    by (simp add: generate_output_filename_def)
  from split_at_last_sep [OF this assms(1,2)]
  have bs: "b @ ''_from_'' @ s = b' @ ''_from_'' @ s'" and t: "t = t'"
    by simp_all
  from bs have "(b @ ''_from'') @ CHR ''_'' # s = (b' @ ''_from'') @ CHR ''_'' # s'"
    by simp
  from split_at_last_sep [OF this assms(3,4)]
  have "b @ ''_from'' = b' @ ''_from''" and s: "s = s'"
    by simp_all
  then have "b = b'" by simp
  with s t show ?thesis by simp
qed

text \<open>
  The hypotheses hold of the extensions \<open>pdf\<close>, \<open>docx\<close> and \<open>md\<close>: the names generated
  for \<open>report.pdf\<close> and \<open>report.docx\<close> differ.
\<close>

theorem generate_output_filename_injective_witness:
  "CHR ''.'' \<notin> set ''md'' \<and> CHR ''_'' \<notin> set ''pdf''
   \<and> generate_output_filename ''report'' ''pdf'' ''md'' = ''report_from_pdf.md''
   \<and> generate_output_filename ''report'' ''docx'' ''md'' \<noteq> generate_output_filename ''report'' ''pdf'' ''md''"
proof -
  have a: "CHR ''.'' \<notin> set ''md''" by simp
  have b: "CHR ''_'' \<notin> set ''pdf''" by simp
  have c: "CHR ''_'' \<notin> set ''docx''" by simp
  have "generate_output_filename ''report'' ''docx'' ''md'' \<noteq> generate_output_filename ''report'' ''pdf'' ''md''"
    using generate_output_filename_injective [OF a a c b, of "''report''" "''report''"] by auto
  moreover have "generate_output_filename ''report'' ''pdf'' ''md'' = ''report_from_pdf.md''"
    by (simp add: generate_output_filename_def)
  ultimately show ?thesis using a b by blast
qed

text \<open>
  C7 as stated fails on arbitrary strings: a dot may belong to either extension.
\<close>

theorem generate_output_filename_collision:
  "(''a'', ''b.c'', ''d'') \<noteq> (''a'', ''b'', ''c.d'')
   \<and> generate_output_filename ''a'' ''b.c'' ''d'' = generate_output_filename ''a'' ''b'' ''c.d''"
  by (simp add: generate_output_filename_def)

subsection \<open>Atomic write\<close>

lemma basename_append_no_sep:
  assumes "CHR ''/'' \<notin> set x"
  shows "basename (d @ CHR ''/'' # x) = x"
proof -
  have "takeWhile (\<lambda>c. c \<noteq> CHR ''/'') (rev x @ CHR ''/'' # rev d) = rev x"
    using assms by (subst takeWhile_tail) (auto simp: takeWhile_eq_all_conv)
  then show ?thesis by (simp add: basename_def)
qed

lemma basename_no_sep: "CHR ''/'' \<notin> set (basename p)"
  unfolding basename_def using set_takeWhileD by fastforce

lemma basename_join2:
  assumes "CHR ''/'' \<notin> set x" and "d \<noteq> []"
  shows "basename (join2 d x) = x"
proof (cases "last d = CHR ''/''")
  case True
  with assms(2) obtain d' where "d = d' @ [CHR ''/'']"
    by (metis append_butlast_last_id)
  with assms(1) True show ?thesis
    using basename_append_no_sep [of x d'] by (cases x) (auto simp: join2_def)
next
  case False
  with assms show ?thesis
    using basename_append_no_sep [of x d] by (cases x) (auto simp: join2_def)
qed

lemma tmp_path_neq: "tmp_path path \<noteq> path"
proof
  assume eq: "tmp_path path = path"
  have "CHR ''/'' \<notin> set (''.'' @ basename path @ ''.tmp'')"
    using basename_no_sep [of path] by simp
  then have "basename (tmp_path path) = ''.'' @ basename path @ ''.tmp''"
    unfolding tmp_path_def Let_def by (intro basename_join2) auto
  with eq have "length (basename path) = length (''.'' @ basename path @ ''.tmp'')"
    by simp
  then show False by simp
qed

lemma tmp_path_example: "tmp_path ''out/a.md'' = ''out/.a.md.tmp''"
  by (simp add: tmp_path_def dirname_def head_part_def basename_def join2_def rstrip_def)

lemma atomic_write_raises:
  assumes "fault_message (fault env) = Some e"
  shows "fst (atomic_write env s path content) = Some e"
  using assms
  by (cases "fault env") (simp_all add: fault_message_def atomic_write_def atomic_write_steps_def Let_def)

lemma atomic_write_no_fault:
  assumes "fault w = NoFault"
  shows "snd (atomic_write w s path content) path = Some content"
  using assms by (simp add: atomic_write_def atomic_write_steps_def Let_def)

text \<open>
  C3 (as amended). The atomic write either returns with the destination holding the
  full content and no temporary file, or raises with the destination as it was and the
  temporary file removed unless its removal failed; after every operation of the write
  the destination holds its previous value or the full content.
\<close>

theorem atomic_write_all_or_nothing:
  "(case atomic_write env s path content of
      (None, s') \<Rightarrow> s' path = Some content \<and> s' (tmp_path path) = None
    | (Some e, s') \<Rightarrow> s' path = s path \<and> (s' (tmp_path path) = None \<or> remove_fails env))
   \<and> list_all (\<lambda>t. t path = s path \<or> t path = Some content)
        (snd (atomic_write_steps env s path content))"
  using tmp_path_neq [of path]
  by (cases "fault env")
     (auto simp: atomic_write_def atomic_write_steps_def cleanup_tmp_def Let_def)

text \<open>
  C3 as stated fails when the removal of the temporary file fails as well: the write
  raises and the temporary file stays, holding what had been written.
\<close>

theorem atomic_write_tmp_left_behind:
  "fst (atomic_write \<lparr>fault = WriteFails 2 ''No space left on device'', remove_fails = True\<rparr>
          Map.empty ''out/a.md'' ''hello'') = Some ''No space left on device''
   \<and> snd (atomic_write \<lparr>fault = WriteFails 2 ''No space left on device'', remove_fails = True\<rparr>
          Map.empty ''out/a.md'' ''hello'') (tmp_path ''out/a.md'') = Some ''he''"
  by (simp add: atomic_write_def atomic_write_steps_def cleanup_tmp_def tmp_path_example Let_def)

subsection \<open>File discovery\<close>
















lemma sample_discovery:
  "list_input_files (resolve sample_env) sample_inputs (inputs DEFAULT_CONFIG)
     (input_types DEFAULT_CONFIG)
   = [(''/w/inputs/a.pdf'', ''a.pdf''), (''/w/inputs/big.pdf'', ''big.pdf'')]"
  by (simp add: list_input_files_def sample_env_def sample_inputs_def DEFAULT_CONFIG_def
        candidate_def splitext_def basename_def head_part_def lower_def lower_char_def
        lstrip_def join2_def Let_def)




subsection \<open>Retry after a failed write\<close>

lemma do_atomic_write_raises:
  assumes "fault_message (fault env) = Some e"
  shows "\<exists>st2. do_atomic_write env path content st = (Some e, st2)
           \<and> convert_calls st2 = convert_calls st \<and> sleeps st2 = sleeps st"
  using atomic_write_raises [OF assms, of "files st" path content]
  by (cases "atomic_write env (files st) path content") (simp add: do_atomic_write_def)

lemma attempt_body_write_fails:
  assumes "export_ok_write_fails a output_ext e"
  shows "\<exists>st2. attempt_body a input_path output_path output_ext st = (Inl e, st2)
           \<and> convert_calls st2 = convert_calls st @ [input_path] \<and> sleeps st2 = sleeps st"
proof -
  from assms obtain doc name c where
    a: "convert_result a = ConvertResult (Some doc)"
       "map_of EXPORT_METHODS output_ext = Some name"
       "map_of (attrs doc) name = Some (Some (ExportContent c))"
       "c \<noteq> []" "makedirs_exn a = None"
       "fault_message (fault (write_fault_env a)) = Some e"
    by (auto simp: export_ok_write_fails_def
             split: convert_outcome.splits option.splits export_outcome.splits)
  let ?st1 = "st\<lparr>convert_calls := convert_calls st @ [input_path]\<rparr>"
  from do_atomic_write_raises [OF a(6), of output_path c ?st1]
  obtain st2 where "do_atomic_write (write_fault_env a) output_path c ?st1 = (Some e, st2)"
    and "convert_calls st2 = convert_calls ?st1" and "sleeps st2 = sleeps ?st1"
    by blast
  with a show ?thesis
    by (simp add: attempt_body_def Let_def)
qed

lemma convert_loop_write_fails:
  assumes "\<forall>k. i \<le> k \<and> k \<le> n \<longrightarrow> export_ok_write_fails (env k) output_ext (err k)"
    and "i \<le> n"
  shows "\<exists>st'. convert_loop env input_path output_path output_ext (int n) [i..<Suc n] st
             = ((False, ''Conversion error: '' @ err n), st')
           \<and> convert_calls st' = convert_calls st @ replicate (Suc n - i) input_path
           \<and> sleeps st' = sleeps st + (if i = 0 then n else Suc n - i)"
  using assms
proof (induction "n - i" arbitrary: i st)
  case 0
  then have i: "i = n" by simp
  let ?st1 = "if n > 0 then st\<lparr>sleeps := sleeps st + 1\<rparr> else st"
  from 0 i have "export_ok_write_fails (env n) output_ext (err n)" by simp
  from attempt_body_write_fails [OF this, of input_path output_path ?st1]
  obtain st2 where "attempt_body (env n) input_path output_path output_ext ?st1 = (Inl (err n), st2)"
    and "convert_calls st2 = convert_calls ?st1 @ [input_path]" and "sleeps st2 = sleeps ?st1"
    by blast
  with i show ?case by (auto simp: upt_rec [of n "Suc n"])
next
  case (Suc d)
  then have lt: "i < n" by simp
  let ?st1 = "if i > 0 then st\<lparr>sleeps := sleeps st + 1\<rparr> else st"
  from Suc.prems lt have "export_ok_write_fails (env i) output_ext (err i)" by simp
  from attempt_body_write_fails [OF this, of input_path output_path ?st1]
  obtain st2 where b: "attempt_body (env i) input_path output_path output_ext ?st1 = (Inl (err i), st2)"
    and c: "convert_calls st2 = convert_calls ?st1 @ [input_path]" and s: "sleeps st2 = sleeps ?st1"
    by blast
  have "d = n - Suc i" using Suc.hyps(2) by simp
  moreover have "\<forall>k. Suc i \<le> k \<and> k \<le> n \<longrightarrow> export_ok_write_fails (env k) output_ext (err k)"
    using Suc.prems(1) by simp
  moreover have "Suc i \<le> n" using lt by simp
  ultimately obtain st' where
    r: "convert_loop env input_path output_path output_ext (int n) [Suc i..<Suc n] st2
          = ((False, ''Conversion error: '' @ err n), st')"
    and c': "convert_calls st' = convert_calls st2 @ replicate (Suc n - Suc i) input_path"
    and s': "sleeps st' = sleeps st2 + (if Suc i = 0 then n else Suc n - Suc i)"
    using Suc.hyps(1) [of "Suc i" st2] by blast
  have "[i..<Suc n] = i # [Suc i..<Suc n]" using lt by (intro upt_conv_Cons) simp
  with b r lt have "convert_loop env input_path output_path output_ext (int n) [i..<Suc n] st
      = ((False, ''Conversion error: '' @ err n), st')"
    by (simp del: upt_Suc)
  moreover have "convert_calls st' = convert_calls st @ replicate (Suc n - i) input_path"
    using c c' lt by (simp add: Suc_diff_le replicate_append_same flip: replicate_append_same)
  moreover have "sleeps st' = sleeps st + (if i = 0 then n else Suc n - i)"
    using s s' lt by auto
  ultimately show ?case by blast
qed

lemma attempt_write_fails_ok: "export_ok_write_fails attempt_write_fails ''md'' ''disk full''"
  by (simp add: export_ok_write_fails_def attempt_write_fails_def markdown_doc_def
        EXPORT_METHODS_def fault_message_def)

text \<open>
  C2 (as amended). A write that raises after a successful export is handled by the same
  \<^verbatim>\<open>except\<close> branch as every other exception of the attempt: while
  \<^verbatim>\<open>attempt < retry_attempts\<close> the loop goes on to a fresh conversion after the
  retry sleep. When the write fails on every attempt, the converter has been called
  \<open>retries + 1\<close> times, \<open>retries\<close> sleeps have been taken, and the task fails with the
  reason \<open>Conversion error:\<close> followed by the last write error. With no retry
  configured that is one conversion and no sleep.
\<close>

theorem write_failure_is_retried:
  assumes "0 \<le> retries"
    and "\<forall>k \<le> nat retries. export_ok_write_fails (env k) output_ext (err k)"
  shows "fst (convert_document env input_path output_path output_ext retries st)
           = (False, ''Conversion error: '' @ err (nat retries))
         \<and> convert_calls (snd (convert_document env input_path output_path output_ext retries st))
           = convert_calls st @ replicate (nat retries + 1) input_path
         \<and> sleeps (snd (convert_document env input_path output_path output_ext retries st))
           = sleeps st + nat retries"
proof -
  define n where "n = nat retries"
  with assms(1) have r: "retries = int n" by simp
  have "\<forall>k. 0 \<le> k \<and> k \<le> n \<longrightarrow> export_ok_write_fails (env k) output_ext (err k)"
    using assms(2) n_def by simp
  from convert_loop_write_fails [OF this, of input_path output_path st]
  obtain st' where
    "convert_loop env input_path output_path output_ext (int n) [0..<Suc n] st
       = ((False, ''Conversion error: '' @ err n), st')"
    "convert_calls st' = convert_calls st @ replicate (Suc n) input_path"
    "sleeps st' = sleeps st + n"
    by auto
  moreover have "nat (int n + 1) = Suc n" by simp
  ultimately show ?thesis
    unfolding convert_document_def r by (simp del: upt_Suc add: n_def)
qed

text \<open>
  With one retry and a write that fails with \<open>disk full\<close> on both attempts, the converter
  is called twice and one sleep is taken.
\<close>

theorem write_failure_is_retried_witness:
  "(0::int) \<le> 1
   \<and> export_ok_write_fails attempt_write_fails ''md'' ''disk full''
   \<and> fst (convert_document (\<lambda>k. attempt_write_fails) ''/in/a.pdf'' ''out/a_from_pdf.md'' ''md'' 1
            initial_state) = (False, ''Conversion error: disk full'')
   \<and> convert_calls (snd (convert_document (\<lambda>k. attempt_write_fails) ''/in/a.pdf''
            ''out/a_from_pdf.md'' ''md'' 1 initial_state)) = [''/in/a.pdf'', ''/in/a.pdf'']
   \<and> sleeps (snd (convert_document (\<lambda>k. attempt_write_fails) ''/in/a.pdf''
            ''out/a_from_pdf.md'' ''md'' 1 initial_state)) = 1"
proof -
  have h: "\<forall>k \<le> nat 1. export_ok_write_fails ((\<lambda>k. attempt_write_fails) k) ''md''
             ((\<lambda>k. ''disk full'') k)"
    by (simp add: attempt_write_fails_ok)
  have z: "(0::int) \<le> 1" by simp
  show ?thesis
    using write_failure_is_retried [OF z h, of "''/in/a.pdf''" "''out/a_from_pdf.md''" initial_state]
    by (simp add: attempt_write_fails_ok initial_state_def numeral_2_eq_2)
qed

text \<open>
  C2 as stated fails: with one retry configured, a write failure on the first attempt
  leads to a sleep and a second conversion, and the task succeeds when the second write
  does.
\<close>

theorem write_failure_consumes_retry:
  "export_ok_write_fails attempt_write_fails ''md'' ''disk full''
   \<and> fst (convert_document (\<lambda>k. if k = 0 then attempt_write_fails else attempt_ok)
            ''/in/a.pdf'' ''out/a_from_pdf.md'' ''md'' 1 initial_state) = (True, ''Success'')
   \<and> convert_calls (snd (convert_document (\<lambda>k. if k = 0 then attempt_write_fails else attempt_ok)
            ''/in/a.pdf'' ''out/a_from_pdf.md'' ''md'' 1 initial_state))
        = [''/in/a.pdf'', ''/in/a.pdf'']
   \<and> sleeps (snd (convert_document (\<lambda>k. if k = 0 then attempt_write_fails else attempt_ok)
            ''/in/a.pdf'' ''out/a_from_pdf.md'' ''md'' 1 initial_state)) = 1"
proof -
  have l: "[0..<2] = [0, Suc 0]" by (simp add: upt_rec numeral_2_eq_2)
  note defs = convert_document_def l attempt_body_def
          attempt_write_fails_def attempt_ok_def markdown_doc_def EXPORT_METHODS_def
          do_atomic_write_def atomic_write_def atomic_write_steps_def cleanup_tmp_def
          initial_state_def Let_def
  have "fst (convert_document (\<lambda>k. if k = 0 then attempt_write_fails else attempt_ok)
            ''/in/a.pdf'' ''out/a_from_pdf.md'' ''md'' 1 initial_state) = (True, ''Success'')"
    by (simp add: defs)
  moreover have "convert_calls (snd (convert_document
            (\<lambda>k. if k = 0 then attempt_write_fails else attempt_ok)
            ''/in/a.pdf'' ''out/a_from_pdf.md'' ''md'' 1 initial_state))
        = [''/in/a.pdf'', ''/in/a.pdf'']"
    by (simp add: defs)
  moreover have "sleeps (snd (convert_document
            (\<lambda>k. if k = 0 then attempt_write_fails else attempt_ok)
            ''/in/a.pdf'' ''out/a_from_pdf.md'' ''md'' 1 initial_state)) = 1"
    by (simp add: defs)
  ultimately show ?thesis
    using attempt_write_fails_ok by blast
qed

subsection \<open>The size gate and the statistics\<close>

lemma do_atomic_write_keeps:
  "stats (snd (do_atomic_write w path content st)) = stats st"
  "run_report (snd (do_atomic_write w path content st)) = run_report st"
  "convert_calls (snd (do_atomic_write w path content st)) = convert_calls st"
  "sleeps (snd (do_atomic_write w path content st)) = sleeps st"
  "atomic_writes (snd (do_atomic_write w path content st)) = atomic_writes st @ [(path, content)]"
  by (simp_all add: do_atomic_write_def split: prod.splits)

lemma attempt_body_keeps:
  "stats (snd (attempt_body a input_path output_path output_ext st)) = stats st"
  "run_report (snd (attempt_body a input_path output_path output_ext st)) = run_report st"
  "convert_calls (snd (attempt_body a input_path output_path output_ext st))
     = convert_calls st @ [input_path]"
proof -
  let ?st1 = "st\<lparr>convert_calls := convert_calls st @ [input_path]\<rparr>"
  have k: "stats (snd (do_atomic_write w p c ?st1)) = stats st"
      "run_report (snd (do_atomic_write w p c ?st1)) = run_report st"
      "convert_calls (snd (do_atomic_write w p c ?st1)) = convert_calls st @ [input_path]"
    for w p c
    by (simp_all add: do_atomic_write_keeps)
  have s: "snd (case do_atomic_write w p c ?st1 of
                  (Some e, st2) \<Rightarrow> (Inl e, st2)
                | (None, st2) \<Rightarrow> (Inr (True, ''Success''), st2))
           = snd (do_atomic_write w p c ?st1)" for w p c
    by (simp split: prod.splits option.splits)
  show "stats (snd (attempt_body a input_path output_path output_ext st)) = stats st"
    by (simp add: attempt_body_def Let_def k s
          split: convert_outcome.splits option.splits export_outcome.splits)
  show "run_report (snd (attempt_body a input_path output_path output_ext st)) = run_report st"
    by (simp add: attempt_body_def Let_def k s
          split: convert_outcome.splits option.splits export_outcome.splits)
  show "convert_calls (snd (attempt_body a input_path output_path output_ext st))
     = convert_calls st @ [input_path]"
    by (simp add: attempt_body_def Let_def k s
          split: convert_outcome.splits option.splits export_outcome.splits)
qed

lemma convert_loop_keeps:
  "stats (snd (convert_loop env input_path output_path output_ext r as st)) = stats st
   \<and> run_report (snd (convert_loop env input_path output_path output_ext r as st)) = run_report st
   \<and> set (convert_calls (snd (convert_loop env input_path output_path output_ext r as st)))
       \<subseteq> insert input_path (set (convert_calls st))"
proof (induction as arbitrary: st)
  case Nil
  show ?case by auto
next
  case (Cons k as)
  let ?st1 = "if k > 0 then st\<lparr>sleeps := sleeps st + 1\<rparr> else st"
  obtain res st2 where b: "attempt_body (env k) input_path output_path output_ext ?st1 = (res, st2)"
    by (cases "attempt_body (env k) input_path output_path output_ext ?st1")
  from attempt_body_keeps [of "env k" input_path output_path output_ext ?st1] b
  have k2: "stats st2 = stats st" "run_report st2 = run_report st"
    "convert_calls st2 = convert_calls st @ [input_path]"
    by (simp_all split: if_splits)
  show ?case
  proof (cases res)
    case (Inr v)
    with b k2 show ?thesis by auto
  next
    case (Inl err)
    show ?thesis
    proof (cases "int k < r")
      case True
      with b Inl have
        "convert_loop env input_path output_path output_ext r (k # as) st
          = convert_loop env input_path output_path output_ext r as st2"
        by simp
      with Cons.IH [of st2] k2 show ?thesis by auto
    next
      case False
      with b Inl k2 show ?thesis by auto
    qed
  qed
qed

lemma convert_document_keeps:
  "stats (snd (convert_document env input_path output_path output_ext r st)) = stats st"
  "run_report (snd (convert_document env input_path output_path output_ext r st)) = run_report st"
  "set (convert_calls (snd (convert_document env input_path output_path output_ext r st)))
       \<subseteq> insert input_path (set (convert_calls st))"
  using convert_loop_keeps [of env input_path output_path output_ext r _ st]
  by (simp_all add: convert_document_def)

lemma extends_refl: "extends p st st"
  by (auto simp: extends_def)

lemma extends_trans:
  assumes "extends p st st'" and "extends p st' st''"
  shows "extends p st st''"
proof -
  from assms obtain fs fs' ls ls' where
    "failed_files (stats st') = failed_files (stats st) @ fs"
    "failed (stats st') = failed (stats st) + length fs"
    "failed_files (stats st'') = failed_files (stats st') @ fs'"
    "failed (stats st'') = failed (stats st') + length fs'"
    "run_report st' = run_report st @ ls"
    "successful (stats st') + failed (stats st') = successful (stats st) + failed (stats st) + length ls"
    "run_report st'' = run_report st' @ ls'"
    "successful (stats st'') + failed (stats st'') = successful (stats st') + failed (stats st') + length ls'"
    unfolding extends_def by blast
  then have "failed_files (stats st'') = failed_files (stats st) @ (fs @ fs')"
    "failed (stats st'') = failed (stats st) + length (fs @ fs')"
    "run_report st'' = run_report st @ (ls @ ls')"
    "successful (stats st'') + failed (stats st'')
       = successful (stats st) + failed (stats st) + length (ls @ ls')"
    by simp_all
  moreover have "set (convert_calls st'') \<subseteq> insert p (set (convert_calls st))"
    using assms unfolding extends_def by blast
  moreover have "total_files (stats st'') = total_files (stats st)"
    using assms unfolding extends_def by simp
  ultimately show ?thesis unfolding extends_def by blast
qed

lemma process_output_extends:
  "extends input_abs_path st
     (process_output e c dry_run input_abs_path input_rel_path name ext rel_dir output_ext st)"
proof (cases "output_ext = ext")
  case True
  then show ?thesis by (auto simp: process_output_def extends_def add_skip_def)
next
  case ne: False
  show ?thesis
  proof (cases dry_run)
    case True
    with ne show ?thesis
      by (auto simp: process_output_def extends_def add_success_def Let_def)
  next
    case False
    let ?op = "if rel_dir \<noteq> [] then join2 (join2 (outputs c) rel_dir)
                   (generate_output_filename name ext output_ext)
               else join2 (outputs c) (generate_output_filename name ext output_ext)"
    let ?r = "convert_document (conversions e input_abs_path output_ext) input_abs_path ?op
                output_ext (retry_attempts c) st"
    obtain success message st' where r: "?r = ((success, message), st')"
      by (metis prod.exhaust)
    from convert_document_keeps [of "conversions e input_abs_path output_ext" input_abs_path ?op
        output_ext "retry_attempts c" st] r
    have k: "stats st' = stats st" "run_report st' = run_report st"
      "set (convert_calls st') \<subseteq> insert input_abs_path (set (convert_calls st))"
      by simp_all
    from ne False r k show ?thesis
      by (cases success)
         (auto simp: process_output_def extends_def add_success_def add_failure_def Let_def)
  qed
qed

lemma fold_process_output_extends:
  "extends input_abs_path st
     (fold (process_output e c dry_run input_abs_path input_rel_path name ext rel_dir) outs st)"
proof (induction outs arbitrary: st)
  case Nil
  show ?case by (simp add: extends_refl)
next
  case (Cons a outs)
  show ?case
    using extends_trans [OF process_output_extends Cons.IH] by simp
qed

lemma process_file_too_large:
  assumes "too_large e c input_abs_path"
  shows "process_file e c dry_run (input_abs_path, input_rel_path) st
       = st\<lparr>stats := add_failure input_rel_path (size_message e c input_abs_path) (stats st),
            run_report := run_report st
              @ [''SKIPPED (size): '' @ input_rel_path @ '' - '' @ size_message e c input_abs_path]\<rparr>"
  using assms
  by (simp add: process_file_def check_file_size_def too_large_def size_message_def Let_def)

lemma process_file_extends:
  "extends (fst f) st (process_file e c dry_run f st)"
proof (cases f)
  case (Pair a r)
  show ?thesis
  proof (cases "too_large e c a")
    case True
    show ?thesis
      unfolding Pair process_file_too_large [OF True]
      by (auto simp: extends_def add_failure_def)
  next
    case False
    then have "process_file e c dry_run (a, r) st
       = fold (process_output e c dry_run a r (fst (splitext (basename r)))
                 (lstrip (CHR ''.'') (lower (snd (splitext r)))) (dirname r))
           (output_types c) st"
      by (simp add: process_file_def check_file_size_def too_large_def Let_def)
    then show ?thesis
      unfolding Pair using fold_process_output_extends by simp
  qed
qed


lemma fold_process_file_failed:
  "\<exists>ff. failed_files (stats (fold (process_file e c dry_run) fs st)) = failed_files (stats st) @ ff
        \<and> failed (stats (fold (process_file e c dry_run) fs st)) = failed (stats st) + length ff
        \<and> (\<forall>f \<in> set fs. too_large e c (fst f) \<longrightarrow> (snd f, size_message e c (fst f)) \<in> set ff)"
proof (induction fs arbitrary: st)
  case Nil
  show ?case by simp
next
  case (Cons f fs)
  let ?st1 = "process_file e c dry_run f st"
  obtain a r where f: "f = (a, r)" by (cases f)
  from process_file_extends [of f st e c dry_run] obtain f1 where
    f1: "failed_files (stats ?st1) = failed_files (stats st) @ f1"
        "failed (stats ?st1) = failed (stats st) + length f1"
    unfolding extends_def by blast
  have here: "too_large e c a \<longrightarrow> (r, size_message e c a) \<in> set f1"
  proof
    assume t: "too_large e c a"
    have "failed_files (stats ?st1) = failed_files (stats st) @ [(r, size_message e c a)]"
      unfolding f process_file_too_large [OF t] by (simp add: add_failure_def)
    with f1(1) have "f1 = [(r, size_message e c a)]" by simp
    then show "(r, size_message e c a) \<in> set f1" by simp
  qed
  from Cons.IH [of ?st1] obtain f2 where
    f2: "failed_files (stats (fold (process_file e c dry_run) fs ?st1))
           = failed_files (stats ?st1) @ f2"
        "failed (stats (fold (process_file e c dry_run) fs ?st1)) = failed (stats ?st1) + length f2"
        "\<forall>f \<in> set fs. too_large e c (fst f) \<longrightarrow> (snd f, size_message e c (fst f)) \<in> set f2"
    by blast
  have "failed_files (stats (fold (process_file e c dry_run) (f # fs) st))
          = failed_files (stats st) @ (f1 @ f2)"
    using f1 f2 by simp
  moreover have "failed (stats (fold (process_file e c dry_run) (f # fs) st))
          = failed (stats st) + length (f1 @ f2)"
    using f1 f2 by simp
  moreover have "\<forall>g \<in> set (f # fs). too_large e c (fst g)
          \<longrightarrow> (snd g, size_message e c (fst g)) \<in> set (f1 @ f2)"
    using here f2(3) f by auto
  ultimately show ?case by blast
qed

lemma fold_process_file_report:
  "\<exists>ls. run_report (fold (process_file e c dry_run) fs st) = run_report st @ ls
        \<and> successful (stats (fold (process_file e c dry_run) fs st))
            + failed (stats (fold (process_file e c dry_run) fs st))
          = successful (stats st) + failed (stats st) + length ls"
proof (induction fs arbitrary: st)
  case Nil
  show ?case by simp
next
  case (Cons f fs)
  let ?st1 = "process_file e c dry_run f st"
  from process_file_extends [of f st e c dry_run] obtain l1 where
    l1: "run_report ?st1 = run_report st @ l1"
        "successful (stats ?st1) + failed (stats ?st1)
           = successful (stats st) + failed (stats st) + length l1"
    unfolding extends_def by blast
  from Cons.IH [of ?st1] obtain l2 where
    l2: "run_report (fold (process_file e c dry_run) fs ?st1) = run_report ?st1 @ l2"
        "successful (stats (fold (process_file e c dry_run) fs ?st1))
            + failed (stats (fold (process_file e c dry_run) fs ?st1))
          = successful (stats ?st1) + failed (stats ?st1) + length l2"
    by blast
  have "run_report (fold (process_file e c dry_run) (f # fs) st) = run_report st @ (l1 @ l2)"
    using l1 l2 by simp
  moreover have "successful (stats (fold (process_file e c dry_run) (f # fs) st))
            + failed (stats (fold (process_file e c dry_run) (f # fs) st))
          = successful (stats st) + failed (stats st) + length (l1 @ l2)"
    using l1 l2 by simp
  ultimately show ?case by blast
qed

lemma save_report_keeps:
  "stats (save_report e c st) = stats st"
  "convert_calls (save_report e c st) = convert_calls st"
  by (simp_all add: save_report_def Let_def do_atomic_write_keeps split: option.splits)

lemma sample_too_large: "too_large sample_env DEFAULT_CONFIG ''/w/inputs/big.pdf''"
  by (simp add: too_large_def get_file_size_def sample_env_def DEFAULT_CONFIG_def)

lemma process_conversions_returns:
  assumes "dry_run \<or> converter_init e = None"
  shows "\<exists>st'. process_conversions e c dry_run fs st = Inr st'"
  using assms by (auto simp: process_conversions_def Let_def)

text \<open>
  C10. A file rejected by the size gate adds exactly one failure to the statistics,
  whatever output types are configured: the counters of successes and skips stay as
  they were, no conversion is called, and the report gains the one line of the rejection.
\<close>

theorem size_gate_counts_one_failure:
  assumes "too_large e c input_abs_path"
  shows "successful (stats (process_file e (c\<lparr>output_types := outs\<rparr>) dry_run
                              (input_abs_path, input_rel_path) st)) = successful (stats st)
       \<and> failed (stats (process_file e (c\<lparr>output_types := outs\<rparr>) dry_run
                              (input_abs_path, input_rel_path) st)) = failed (stats st) + 1
       \<and> skipped (stats (process_file e (c\<lparr>output_types := outs\<rparr>) dry_run
                              (input_abs_path, input_rel_path) st)) = skipped (stats st)
       \<and> convert_calls (process_file e (c\<lparr>output_types := outs\<rparr>) dry_run
                              (input_abs_path, input_rel_path) st) = convert_calls st
       \<and> length (run_report (process_file e (c\<lparr>output_types := outs\<rparr>) dry_run
                              (input_abs_path, input_rel_path) st)) = length (run_report st) + 1"
proof -
  from assms have "too_large e (c\<lparr>output_types := outs\<rparr>) input_abs_path"
    by (simp add: too_large_def)
  from process_file_too_large [OF this] show ?thesis
    by (simp add: add_failure_def)
qed

text \<open>
  A file of 200 MiB against the default limit of 100, with two output types configured.
\<close>

theorem size_gate_counts_one_failure_witness:
  "too_large sample_env DEFAULT_CONFIG ''/w/inputs/big.pdf''
   \<and> failed (stats (process_file sample_env (DEFAULT_CONFIG\<lparr>output_types := [''md'', ''html'']\<rparr>)
                       False (''/w/inputs/big.pdf'', ''big.pdf'') initial_state)) = 1
   \<and> successful (stats (process_file sample_env
                       (DEFAULT_CONFIG\<lparr>output_types := [''md'', ''html'']\<rparr>)
                       False (''/w/inputs/big.pdf'', ''big.pdf'') initial_state)) = 0
   \<and> skipped (stats (process_file sample_env
                       (DEFAULT_CONFIG\<lparr>output_types := [''md'', ''html'']\<rparr>)
                       False (''/w/inputs/big.pdf'', ''big.pdf'') initial_state)) = 0"
  using size_gate_counts_one_failure [OF sample_too_large, of "[''md'', ''html'']" False
          "''big.pdf''" initial_state]
  by (simp add: sample_too_large initial_state_def new_stats_def)



subsection \<open>The run report\<close>

lemma do_atomic_write_no_fault:
  assumes "fault w = NoFault"
  shows "files (snd (do_atomic_write w path content st)) path = Some content"
  using atomic_write_no_fault [OF assms, of "files st" path content]
  by (auto simp: do_atomic_write_def split: prod.splits)

text \<open>
  C9 (as amended). A run that discovers at least one file, and whose
  \<^verbatim>\<open>ensure_dir(outputs_dir)\<close> succeeds, makes exactly one atomic write after the
  conversion loop: to \<open>run_report_<stamp>.txt\<close> under the outputs directory, of the header,
  one line per recorded success or failure, an empty line and the statistics summary,
  joined by newlines. If the write meets no fault the file holds that text.
\<close>

theorem report_saved_after_conversions:
  assumes "process_conversions e c dry_run fs st = Inr st'"
    and "list_input_files (resolve e) fs (inputs c) (input_types c) \<noteq> []"
    and "report_ensure_dir e = None"
  shows "\<exists>task_lines.
           length task_lines = successful (stats st') + failed (stats st')
         \<and> atomic_writes st'
             = atomic_writes
                 (conversion_phase e c dry_run
                    (list_input_files (resolve e) fs (inputs c) (input_types c))
                    (st\<lparr>stats := new_stats\<lparr>total_files :=
                        length (list_input_files (resolve e) fs (inputs c) (input_types c))\<rparr>\<rparr>))
               @ [(report_path e c,
                   intercalate [CHR 0x0A]
                     (report_header e c dry_run
                        (length (list_input_files (resolve e) fs (inputs c) (input_types c)))
                      @ task_lines @ [''''] @ summary e (stats st')))]
         \<and> (fault (report_write e) = NoFault \<longrightarrow>
              files st' (report_path e c)
                = Some (intercalate [CHR 0x0A]
                     (report_header e c dry_run
                        (length (list_input_files (resolve e) fs (inputs c) (input_types c)))
                      @ task_lines @ [''''] @ summary e (stats st'))))"
proof -
  let ?files = "list_input_files (resolve e) fs (inputs c) (input_types c)"
  let ?st1 = "st\<lparr>stats := new_stats\<lparr>total_files := length ?files\<rparr>\<rparr>"
  let ?st2 = "?st1\<lparr>run_report := report_header e c dry_run (length ?files)\<rparr>"
  let ?st3 = "conversion_phase e c dry_run ?files ?st1"
  have st3: "?st3 = fold (process_file e c dry_run) ?files ?st2"
    by (simp add: conversion_phase_def)
  from assms(1,2) have st': "st' = save_report e c ?st3"
    by (simp add: process_conversions_def Let_def split: option.splits if_splits)
  from fold_process_file_report [of e c dry_run ?files ?st2] st3 obtain ls where
    ls: "run_report ?st3 = report_header e c dry_run (length ?files) @ ls"
        "successful (stats ?st3) + failed (stats ?st3) = length ls"
    by (auto simp: new_stats_def)
  let ?text = "intercalate [CHR 0x0A]
                 (report_header e c dry_run (length ?files) @ ls @ [''''] @ summary e (stats ?st3))"
  let ?st4 = "?st3\<lparr>run_report := run_report ?st3 @ [''''] @ summary e (stats ?st3)\<rparr>"
  have sv: "save_report e c ?st3 = snd (do_atomic_write (report_write e) (report_path e c) ?text ?st4)"
    using assms(3) ls(1) by (simp add: save_report_def Let_def)
  have s: "stats st' = stats ?st3"
    unfolding st' by (simp add: save_report_keeps)
  have "length ls = successful (stats st') + failed (stats st')"
    using ls(2) s by simp
  moreover have "atomic_writes st' = atomic_writes ?st3 @ [(report_path e c, ?text)]"
    unfolding st' sv by (simp add: do_atomic_write_keeps)
  moreover have "fault (report_write e) = NoFault \<longrightarrow> files st' (report_path e c) = Some ?text"
    unfolding st' sv by (simp add: do_atomic_write_no_fault)
  ultimately show ?thesis
    unfolding s by blast
qed

text \<open>
  The same run: its report is in the store.
\<close>

theorem report_saved_after_conversions_witness:
  "(case process_conversions sample_env DEFAULT_CONFIG False sample_inputs initial_state of
      Inl err \<Rightarrow> False
    | Inr st' \<Rightarrow>
        list_input_files (resolve sample_env) sample_inputs (inputs DEFAULT_CONFIG)
          (input_types DEFAULT_CONFIG) \<noteq> []
        \<and> report_ensure_dir sample_env = None
        \<and> (\<exists>task_lines.
              length task_lines = successful (stats st') + failed (stats st')
            \<and> files st' (report_path sample_env DEFAULT_CONFIG)
                = Some (intercalate [CHR 0x0A]
                     (report_header sample_env DEFAULT_CONFIG False
                        (length (list_input_files (resolve sample_env) sample_inputs
                           (inputs DEFAULT_CONFIG) (input_types DEFAULT_CONFIG)))
                      @ task_lines @ [''''] @ summary sample_env (stats st')))))"
proof -
  have "converter_init sample_env = None" by (simp add: sample_env_def)
  then obtain st' where
    r: "process_conversions sample_env DEFAULT_CONFIG False sample_inputs initial_state = Inr st'"
    using process_conversions_returns by blast
  have ne: "list_input_files (resolve sample_env) sample_inputs (inputs DEFAULT_CONFIG)
          (input_types DEFAULT_CONFIG) \<noteq> []"
    unfolding sample_discovery by simp
  have en: "report_ensure_dir sample_env = None" by (simp add: sample_env_def)
  have nf: "fault (report_write sample_env) = NoFault" by (simp add: sample_env_def)
  from report_saved_after_conversions [OF r ne en] nf
  obtain task_lines where
    "length task_lines = successful (stats st') + failed (stats st')"
    "files st' (report_path sample_env DEFAULT_CONFIG)
       = Some (intercalate [CHR 0x0A]
            (report_header sample_env DEFAULT_CONFIG False
                        (length (list_input_files (resolve sample_env) sample_inputs
                           (inputs DEFAULT_CONFIG) (input_types DEFAULT_CONFIG)))
             @ task_lines @ [''''] @ summary sample_env (stats st')))"
    by blast
  with r ne en show ?thesis by auto
qed

text \<open>
  C9 as stated fails for a run that discovers no input file: it returns before any
  report is built, and nothing is written.
\<close>

theorem no_report_without_input_files:
  "list_input_files (resolve sample_env) [''./inputs'' \<mapsto> Dir []] (inputs DEFAULT_CONFIG)
     (input_types DEFAULT_CONFIG) = []
   \<and> process_conversions sample_env DEFAULT_CONFIG False [''./inputs'' \<mapsto> Dir []] initial_state
       = Inr (initial_state\<lparr>stats := new_stats\<lparr>total_files := 0\<rparr>\<rparr>)
   \<and> atomic_writes (initial_state\<lparr>stats := new_stats\<lparr>total_files := 0\<rparr>\<rparr>) = []
   \<and> files (initial_state\<lparr>stats := new_stats\<lparr>total_files := 0\<rparr>\<rparr>)
        (report_path sample_env DEFAULT_CONFIG) = None"
proof -
  have d: "list_input_files (resolve sample_env) [''./inputs'' \<mapsto> Dir []] (inputs DEFAULT_CONFIG)
     (input_types DEFAULT_CONFIG) = []"
    by (simp add: list_input_files_def DEFAULT_CONFIG_def)
  have "converter_init sample_env = None" by (simp add: sample_env_def)
  with d have "process_conversions sample_env DEFAULT_CONFIG False [''./inputs'' \<mapsto> Dir []]
      initial_state = Inr (initial_state\<lparr>stats := new_stats\<lparr>total_files := 0\<rparr>\<rparr>)"
    by (simp add: process_conversions_def)
  with d show ?thesis by (simp add: initial_state_def)
qed

subsection \<open>Rotation\<close>

lemma move_entry_plain:
  assumes "src \<noteq> dst" and "fs src = Some (Dir ((n, v) # es))" and "n \<notin> fst ` set es"
    and "fs dst = Some (Dir ds)" and "n \<notin> fst ` set ds"
    and "entry_faults env src n = NoEntryFault"
  shows "move_entry env True src dst n (fs, k) = (fs(dst \<mapsto> Dir (ds @ [(n, v)]), src \<mapsto> Dir es), Suc k)"
proof -
  have d: "lookup_entry fs dst n = None"
    using assms(4,5) by (simp add: lookup_entry_def map_of_eq_None_iff)
  have s: "lookup_entry fs src n = Some v"
    using assms(2) by (simp add: lookup_entry_def)
  have a: "add_entry fs dst n v = fs(dst \<mapsto> Dir (ds @ [(n, v)]))"
    using assms(4) by (simp add: add_entry_def)
  have f: "filter (\<lambda>e. fst e \<noteq> n) es = es"
    using assms(3) by (auto simp: filter_id_conv)
  have r: "remove_entry (fs(dst \<mapsto> Dir (ds @ [(n, v)]))) src n
             = fs(dst \<mapsto> Dir (ds @ [(n, v)]), src \<mapsto> Dir es)"
    using assms(1,2) f by (simp add: remove_entry_def)
  show ?thesis
    using d s a r assms(6) by (simp add: move_entry_def Let_def)
qed

lemma fold_move_entries:
  assumes "src \<noteq> dst" and "fs src = Some (Dir es)" and "fs dst = Some (Dir ds)"
    and "distinct (map fst es)" and "fst ` set es \<inter> fst ` set ds = {}"
    and "\<forall>n. entry_faults env src n = NoEntryFault"
  shows "fold (move_entry env True src dst) (map fst es) (fs, k)
           = (fs(dst \<mapsto> Dir (ds @ es), src \<mapsto> Dir []), k + length es)"
  using assms(2-5)
proof (induction es arbitrary: fs ds k)
  case Nil
  then show ?case by (auto simp: fun_eq_iff)
next
  case (Cons e es)
  obtain n v where e: "e = (n, v)" by (cases e)
  let ?fs1 = "fs(dst \<mapsto> Dir (ds @ [(n, v)]), src \<mapsto> Dir es)"
  have step: "move_entry env True src dst n (fs, k) = (?fs1, Suc k)"
    using Cons.prems e assms(1,6) by (intro move_entry_plain) auto
  have "fold (move_entry env True src dst) (map fst es) (?fs1, Suc k)
          = (?fs1(dst \<mapsto> Dir ((ds @ [(n, v)]) @ es), src \<mapsto> Dir []), Suc k + length es)"
    using Cons.prems e assms(1) by (intro Cons.IH) auto
  moreover have "?fs1(dst \<mapsto> Dir ((ds @ [(n, v)]) @ es), src \<mapsto> Dir [])
          = fs(dst \<mapsto> Dir (ds @ (n, v) # es), src \<mapsto> Dir [])"
    using assms(1) by (auto simp: fun_eq_iff)
  ultimately show ?case
    using step e by (auto simp: fun_eq_iff)
qed

lemma move_contents_plain:
  assumes "src \<noteq> dst" and "fs src = Some (Dir es)" and "fs dst = Some (Dir ds)"
    and "distinct (map fst es)" and "fst ` set es \<inter> fst ` set ds = {}"
    and "\<forall>n. entry_faults env src n = NoEntryFault"
  shows "move_contents env fs src dst True
           = Inr (fs(dst \<mapsto> Dir (ds @ es), src \<mapsto> Dir []), length es)"
  using fold_move_entries [OF assms, of 0] assms(2,3)
  by (simp add: move_contents_def ensure_dir_def)

lemma remove_entry_other:
  assumes "p \<noteq> d"
  shows "remove_entry fs d n p = fs p"
  using assms by (simp add: remove_entry_def split: option.splits node.splits)

lemma add_entry_other:
  assumes "p \<noteq> d"
  shows "add_entry fs d n v p = fs p"
  using assms by (simp add: add_entry_def split: option.splits node.splits)

lemma move_entry_other:
  assumes "p \<noteq> src" and "p \<noteq> dst"
  shows "fst (move_entry env ow src dst n s) p = fst s p"
proof (cases s)
  case (Pair fs k)
  show ?thesis
    unfolding Pair move_entry_def Let_def
    using assms
    by (simp add: remove_entry_other add_entry_other split: option.splits)
qed

lemma fold_move_entry_other:
  assumes "p \<noteq> src" and "p \<noteq> dst"
  shows "fst (fold (move_entry env ow src dst) ns s) p = fst s p"
proof (induction ns arbitrary: s)
  case Nil
  show ?case by simp
next
  case (Cons n ns)
  show ?case
    using Cons.IH [of "move_entry env ow src dst n s"] move_entry_other [OF assms, of env ow n s]
    by simp
qed

lemma move_contents_other:
  assumes "move_contents env fs src dst ow = Inr (fs', k)" and "p \<noteq> src" and "p \<noteq> dst"
  shows "fs' p = fs p"
proof (cases "fs src")
  case None
  with assms(1) show ?thesis by (simp add: move_contents_def)
next
  case (Some t)
  with assms(1) obtain fs1 es where
    e: "ensure_dir fs dst = Inr fs1" and d: "fs1 src = Some (Dir es)"
    and r: "fold (move_entry env ow src dst) (map fst es) (fs1, 0) = (fs', k)"
    by (auto simp: move_contents_def split: sum.splits option.splits node.splits)
  from e assms(3) have "fs1 p = fs p"
    by (auto simp: ensure_dir_def split: option.splits node.splits)
  moreover from fold_move_entry_other [OF assms(2,3), of env ow "map fst es" "(fs1, 0)"] r
  have "fs' p = fs1 p" by simp
  ultimately show ?thesis by simp
qed

lemma archive_inputs_other:
  assumes "p \<noteq> inputs_dir" and "p \<noteq> old_inputs_name env"
  shows "fst (archive_inputs env fs inputs_dir) p = fs p"
  using assms
  by (auto simp: archive_inputs_def shutil_move_def Let_def
         split: option.splits node.splits sum.splits if_splits)

lemma recreate_inputs_other:
  assumes "recreate_inputs fs inputs_dir = Inr fs'" and "p \<noteq> inputs_dir"
  shows "fs' p = fs p"
  using assms
  by (auto simp: recreate_inputs_def ensure_dir_def
         split: option.splits node.splits sum.splits if_splits)

text \<open>
  C1 (as amended). When the inputs directory exists and its rename to
  \<open>./inputs_old_<stamp>\<close> succeeds, the rename leaves no inputs directory, the second
  step creates a fresh empty one, and at the end of the rotation the prior inputs are
  found, whole, under \<open>./inputs_old_<stamp>\<close>, the path the rotation returns.
\<close>

theorem rename_archives_inputs:
  assumes "fs inputs_dir = Some t"
    and "move_fault env = None" and "fs (old_inputs_name env) = None"
    and "old_inputs_name env \<noteq> q" and "old_inputs_name env \<noteq> s"
    and "rotate_inputs env fs inputs_dir q s = Inr (fs', r)"
  shows "fst r = old_inputs_name env \<and> fs' (old_inputs_name env) = Some t
       \<and> fst (archive_inputs env fs inputs_dir) inputs_dir = None
       \<and> recreate_inputs (fst (archive_inputs env fs inputs_dir)) inputs_dir
           = Inr ((fst (archive_inputs env fs inputs_dir))(inputs_dir \<mapsto> Dir []))"
proof -
  let ?old = "old_inputs_name env"
  let ?fs1 = "(fs(inputs_dir := None))(?old \<mapsto> t)"
  let ?fs2 = "?fs1(inputs_dir \<mapsto> Dir [])"
  from assms(1,3) have ne: "?old \<noteq> inputs_dir" by auto
  have a: "archive_inputs env fs inputs_dir = (?fs1, ?old)"
    using assms(1,2,3) by (simp add: archive_inputs_def shutil_move_def Let_def)
  have n: "?fs1 inputs_dir = None" using ne by simp
  have rc: "recreate_inputs ?fs1 inputs_dir = Inr ?fs2"
    using n by (simp add: recreate_inputs_def ensure_dir_def)
  from assms(6) a rc obtain fs3 qc sc where
    m3: "move_contents env ?fs2 q s True = Inr (fs3, qc)"
    and m4: "move_contents env fs3 s inputs_dir True = Inr (fs', sc)"
    and r: "r = (?old, qc, sc)"
    by (auto simp: rotate_inputs_def split: sum.splits prod.splits)
  have "fs3 ?old = ?fs2 ?old"
    using move_contents_other [OF m3] assms(4,5) by simp
  moreover have "fs' ?old = fs3 ?old"
    using move_contents_other [OF m4] assms(5) ne by simp
  moreover have "?fs2 ?old = Some t" using ne by simp
  ultimately have "fs' ?old = Some t" by simp
  with r a n rc show ?thesis by simp
qed

text \<open>
  A rotation without faults: \<open>old.pdf\<close> ends under \<open>./inputs_old_20250101_000000_000\<close>,
  and the inputs directory holds what the queue held.
\<close>

theorem rename_archives_inputs_witness:
  "sample_dirs ''./inputs'' = Some (Dir [(''old.pdf'', File ''o'')])
   \<and> move_fault quiet_rotation = None
   \<and> sample_dirs (old_inputs_name quiet_rotation) = None
   \<and> old_inputs_name quiet_rotation \<noteq> ''./inputs_queue''
   \<and> old_inputs_name quiet_rotation \<noteq> ''./inputs_staging''
   \<and> (case rotate_inputs quiet_rotation sample_dirs ''./inputs'' ''./inputs_queue''
              ''./inputs_staging'' of
         Inl err \<Rightarrow> False
       | Inr (fs', r) \<Rightarrow>
           fst r = ''./inputs_old_20250101_000000_000''
           \<and> fs' ''./inputs_old_20250101_000000_000'' = Some (Dir [(''old.pdf'', File ''o'')])
           \<and> fs' ''./inputs'' = Some (Dir [(''a.pdf'', File ''a'')]))"
proof -
  have h1: "sample_dirs ''./inputs'' = Some (Dir [(''old.pdf'', File ''o'')])"
    by (simp add: sample_dirs_def)
  have h2: "move_fault quiet_rotation = None" by (simp add: quiet_rotation_def)
  have o: "old_inputs_name quiet_rotation = ''./inputs_old_20250101_000000_000''"
    by (simp add: old_inputs_name_def quiet_rotation_def)
  have h3: "sample_dirs (old_inputs_name quiet_rotation) = None"
    by (simp add: o sample_dirs_def)
  have h4: "old_inputs_name quiet_rotation \<noteq> ''./inputs_queue''" by (simp add: o)
  have h5: "old_inputs_name quiet_rotation \<noteq> ''./inputs_staging''" by (simp add: o)
  obtain fs' r where
    run: "rotate_inputs quiet_rotation sample_dirs ''./inputs'' ''./inputs_queue''
            ''./inputs_staging'' = Inr (fs', r)"
    and i: "fs' ''./inputs'' = Some (Dir [(''a.pdf'', File ''a'')])"
    by (simp add: rotate_inputs_def archive_inputs_def shutil_move_def recreate_inputs_def
          ensure_dir_def move_contents_def move_entry_def lookup_entry_def remove_entry_def
          add_entry_def old_inputs_name_def quiet_rotation_def sample_dirs_def Let_def)
  from rename_archives_inputs [OF h1 h2 h3 h4 h5 run] h1 h2 h3 h4 h5 run i o
  show ?thesis by simp
qed

text \<open>
  C1 as stated fails when the rename raises: the fallback
  \<^verbatim>\<open>shutil.rmtree(inputs_dir)\<close> deletes the prior inputs, and nothing is archived.
\<close>

theorem failed_rename_deletes_inputs:
  "sample_dirs ''./inputs'' = Some (Dir [(''old.pdf'', File ''o'')])
   \<and> rotate_inputs (quiet_rotation\<lparr>move_fault := Some ''Invalid cross-device link''\<rparr>)
        (sample_dirs(''./inputs_queue'' \<mapsto> Dir [])) ''./inputs'' ''./inputs_queue''
        ''./inputs_staging''
     = Inr ([''./inputs'' \<mapsto> Dir [], ''./inputs_queue'' \<mapsto> Dir [],
             ''./inputs_staging'' \<mapsto> Dir []],
            (''./inputs_old_20250101_000000_000'', 0, 0))"
  by (auto simp: rotate_inputs_def archive_inputs_def shutil_move_def recreate_inputs_def
        ensure_dir_def move_contents_def old_inputs_name_def quiet_rotation_def sample_dirs_def
        Let_def fun_eq_iff)

text \<open>
  C4 (as amended). Take three distinct directories, queue and staging existing with
  no name in common, no per-entry move error, and an archive step that has left the
  inputs directory empty. Then the rotation returns, queue and staging are empty
  directories, and inputs holds the entries of staging followed by those of the queue:
  as many entries as both had together.
\<close>

theorem rotation_preserves_count:
  assumes "inputs_dir \<noteq> q" and "inputs_dir \<noteq> s" and "q \<noteq> s"
    and "old_inputs_name env \<noteq> q" and "old_inputs_name env \<noteq> s"
    and "fs q = Some (Dir qs)" and "fs s = Some (Dir ss)"
    and "distinct (map fst qs)" and "distinct (map fst ss)"
    and "set (map fst qs) \<inter> set (map fst ss) = {}"
    and "\<forall>d n. entry_faults env d n = NoEntryFault"
    and "inputs_cleared env fs inputs_dir"
  shows "\<exists>fs' old es.
           rotate_inputs env fs inputs_dir q s = Inr (fs', (old, length qs, length ss + length qs))
         \<and> fs' q = Some (Dir []) \<and> fs' s = Some (Dir [])
         \<and> fs' inputs_dir = Some (Dir es) \<and> mset es = mset qs + mset ss
         \<and> length es = length qs + length ss"
proof -
  obtain fs1 old where a: "archive_inputs env fs inputs_dir = (fs1, old)"
    by (cases "archive_inputs env fs inputs_dir")
  from assms(12) a obtain fs2 where
    rc: "recreate_inputs fs1 inputs_dir = Inr fs2" and i2: "fs2 inputs_dir = Some (Dir [])"
    by (auto simp: inputs_cleared_def split: sum.splits)
  have k1: "fs1 q = fs q" "fs1 s = fs s"
    using archive_inputs_other [of q inputs_dir env fs]
          archive_inputs_other [of s inputs_dir env fs] a assms(1,2,4,5)
    by auto
  have q2: "fs2 q = Some (Dir qs)"
    using recreate_inputs_other [OF rc, of q] k1 assms(1,6) by simp
  have s2: "fs2 s = Some (Dir ss)"
    using recreate_inputs_other [OF rc, of s] k1 assms(2,7) by simp
  let ?fs3 = "fs2(s \<mapsto> Dir (ss @ qs), q \<mapsto> Dir [])"
  have m3: "move_contents env fs2 q s True = Inr (?fs3, length qs)"
    using assms(3,8,10,11) q2 s2 by (intro move_contents_plain) auto
  let ?fs4 = "?fs3(inputs_dir \<mapsto> Dir ([] @ (ss @ qs)), s \<mapsto> Dir [])"
  have "move_contents env ?fs3 s inputs_dir True = Inr (?fs4, length (ss @ qs))"
    using assms(1,2,3,8,9,10,11) i2 by (intro move_contents_plain) auto
  then have m4: "move_contents env ?fs3 s inputs_dir True = Inr (?fs4, length ss + length qs)"
    by simp
  have r: "rotate_inputs env fs inputs_dir q s
             = Inr (?fs4, (old, length qs, length ss + length qs))"
    using a rc m3 m4 by (simp add: rotate_inputs_def)
  have "?fs4 q = Some (Dir [])" using assms(1,3) by simp
  moreover have "?fs4 s = Some (Dir [])" by simp
  moreover have "?fs4 inputs_dir = Some (Dir (ss @ qs))" using assms(2) by simp
  ultimately show ?thesis using r by (intro exI [of _ ?fs4] exI [of _ old] exI [of _ "ss @ qs"]) simp
qed

text \<open>
  The same rotation: one entry in the queue, none in staging, one in the inputs directory
  afterwards.
\<close>

theorem rotation_preserves_count_witness:
  "''./inputs'' \<noteq> ''./inputs_queue'' \<and> ''./inputs'' \<noteq> ''./inputs_staging''
   \<and> ''./inputs_queue'' \<noteq> ''./inputs_staging''
   \<and> old_inputs_name quiet_rotation \<noteq> ''./inputs_queue''
   \<and> old_inputs_name quiet_rotation \<noteq> ''./inputs_staging''
   \<and> sample_dirs ''./inputs_queue'' = Some (Dir [(''a.pdf'', File ''a'')])
   \<and> sample_dirs ''./inputs_staging'' = Some (Dir [])
   \<and> inputs_cleared quiet_rotation sample_dirs ''./inputs''
   \<and> (\<exists>fs' old es.
         rotate_inputs quiet_rotation sample_dirs ''./inputs'' ''./inputs_queue''
           ''./inputs_staging'' = Inr (fs', (old, 1, 1))
       \<and> fs' ''./inputs_queue'' = Some (Dir []) \<and> fs' ''./inputs_staging'' = Some (Dir [])
       \<and> fs' ''./inputs'' = Some (Dir es) \<and> length es = 1)"
proof -
  have o: "old_inputs_name quiet_rotation = ''./inputs_old_20250101_000000_000''"
    by (simp add: old_inputs_name_def quiet_rotation_def)
  have h4: "old_inputs_name quiet_rotation \<noteq> ''./inputs_queue''" by (simp add: o)
  have h5: "old_inputs_name quiet_rotation \<noteq> ''./inputs_staging''" by (simp add: o)
  have h6: "sample_dirs ''./inputs_queue'' = Some (Dir [(''a.pdf'', File ''a'')])"
    by (simp add: sample_dirs_def)
  have h7: "sample_dirs ''./inputs_staging'' = Some (Dir [])"
    by (simp add: sample_dirs_def)
  have h11: "\<forall>d n. entry_faults quiet_rotation d n = NoEntryFault"
    by (simp add: quiet_rotation_def)
  have h12: "inputs_cleared quiet_rotation sample_dirs ''./inputs''"
    by (simp add: inputs_cleared_def archive_inputs_def shutil_move_def recreate_inputs_def
          ensure_dir_def old_inputs_name_def quiet_rotation_def sample_dirs_def Let_def)
  have "\<exists>fs' old es.
         rotate_inputs quiet_rotation sample_dirs ''./inputs'' ''./inputs_queue''
           ''./inputs_staging'' = Inr (fs', (old, 1, 1))
       \<and> fs' ''./inputs_queue'' = Some (Dir []) \<and> fs' ''./inputs_staging'' = Some (Dir [])
       \<and> fs' ''./inputs'' = Some (Dir es) \<and> length es = 1"
    using rotation_preserves_count [OF _ _ _ h4 h5 h6 h7 _ _ _ h11 h12]
    by auto
  with h4 h5 h6 h7 h12 show ?thesis by simp
qed

text \<open>
  C4 as stated fails when the archive step fails twice (the rename raises, and so does
  the fallback deletion): the old entries stay in the inputs directory, and those of the
  queue are added to them, without any per-entry move error or name collision.
\<close>

theorem failed_archive_breaks_count:
  "(\<forall>d n. entry_faults (quiet_rotation\<lparr>move_fault := Some ''Permission denied'',
                                        rmtree_fails := True\<rparr>) d n = NoEntryFault)
   \<and> rotate_inputs (quiet_rotation\<lparr>move_fault := Some ''Permission denied'', rmtree_fails := True\<rparr>)
        sample_dirs ''./inputs'' ''./inputs_queue'' ''./inputs_staging''
     = Inr ([''./inputs'' \<mapsto> Dir [(''old.pdf'', File ''o''), (''a.pdf'', File ''a'')],
             ''./inputs_queue'' \<mapsto> Dir [], ''./inputs_staging'' \<mapsto> Dir []],
            (''./inputs_old_20250101_000000_000'', 1, 1))
   \<and> length [(''old.pdf'', File ''o''), (''a.pdf'', File ''a'')]
        \<noteq> length [(''a.pdf'', File ''a'')] + length ([] :: (string \<times> node) list)"
  by (auto simp: rotate_inputs_def archive_inputs_def shutil_move_def recreate_inputs_def
        ensure_dir_def move_contents_def move_entry_def lookup_entry_def remove_entry_def
        add_entry_def old_inputs_name_def quiet_rotation_def sample_dirs_def
        Let_def fun_eq_iff)

subsection \<open>Exit status\<close>

lemma process_conversions_failed_count:
  assumes "process_conversions e c d fs st = Inr st'"
  shows "failed (stats st') = length (failed_files (stats st'))"
proof -
  let ?files = "list_input_files (resolve e) fs (inputs c) (input_types c)"
  let ?st1 = "st\<lparr>stats := new_stats\<lparr>total_files := length ?files\<rparr>\<rparr>"
  let ?st2 = "?st1\<lparr>run_report := report_header e c d (length ?files)\<rparr>"
  let ?st3 = "fold (process_file e c d) ?files ?st2"
  show ?thesis
  proof (cases "length ?files = 0")
    case True
    with assms have "st' = ?st1"
      by (simp add: process_conversions_def Let_def split: option.splits if_splits)
    then show ?thesis by (simp add: new_stats_def)
  next
    case False
    with assms have st': "st' = save_report e c ?st3"
      by (simp add: process_conversions_def conversion_phase_def Let_def
            split: option.splits if_splits)
    from fold_process_file_failed [of e c d ?files ?st2]
    have "failed (stats ?st3) = length (failed_files (stats ?st3))"
      by (auto simp: new_stats_def)
    then show ?thesis unfolding st' by (simp add: save_report_keeps)
  qed
qed

lemma process_output_report_env:
  "process_output (e\<lparr>report_ensure_dir := x, report_write := y\<rparr>) c d a r n ext rd
     = process_output e c d a r n ext rd"
  by (rule ext)+ (simp add: process_output_def get_file_size_def Let_def split: prod.splits)

lemma process_file_report_env:
  "process_file (e\<lparr>report_ensure_dir := x, report_write := y\<rparr>) c d = process_file e c d"
  by (rule ext)+
     (simp add: process_file_def check_file_size_def get_file_size_def
        process_output_report_env Let_def split: prod.splits)

lemma process_conversions_report_env:
  "(case process_conversions (e\<lparr>report_ensure_dir := x, report_write := y\<rparr>) c d fs st of
      Inl err \<Rightarrow> None | Inr st' \<Rightarrow> Some (stats st'))
   = (case process_conversions e c d fs st of Inl err \<Rightarrow> None | Inr st' \<Rightarrow> Some (stats st'))"
  by (simp add: process_conversions_def conversion_phase_def report_header_def
        process_file_report_env save_report_keeps Let_def split: option.splits)

lemma snapshot_directory_report_env:
  "snapshot_directory (me\<lparr>processing := p\<rparr>) = snapshot_directory me"
  by (rule ext)+ (simp add: snapshot_directory_def)

lemma setup_and_rotate_report_env:
  "setup_and_rotate a (me\<lparr>processing := p\<rparr>) c fs = setup_and_rotate a me c fs"
  by (simp add: setup_and_rotate_def snapshot_directory_report_env
        cong: sum.case_cong prod.case_cong if_cong)

lemma main_by_stats:
  "main a me c fs out_files =
     (if arg_save_config a then 0
      else case setup_and_rotate a me c fs of
             Inl err \<Rightarrow> 1
           | Inr fs5 \<Rightarrow>
               (case (case process_conversions (processing me) c (arg_dry_run a) fs5
                             (initial_state\<lparr>files := out_files\<rparr>) of
                        Inl err \<Rightarrow> None | Inr st \<Rightarrow> Some (stats st)) of
                  None \<Rightarrow> 1
                | Some s \<Rightarrow> if failed s = 0 then 0 else 1))"
  by (auto simp: main_def run_pipeline_def split: sum.splits)

lemma sample_setup:
  "setup_and_rotate sample_args sample_main_env DEFAULT_CONFIG sample_dirs
     = Inr [''./inputs'' \<mapsto> Dir [(''a.pdf'', File ''a'')],
            ''./inputs_queue'' \<mapsto> Dir [],
            ''./inputs_staging'' \<mapsto> Dir [],
            ''./outputs'' \<mapsto> Dir [],
            ''./outputs_20250101_000000_000'' \<mapsto> Dir [],
            ''./inputs_old_20250101_000000_000'' \<mapsto> Dir [(''old.pdf'', File ''o'')]]"
  by (auto simp: setup_and_rotate_def validate_config_def snapshot_directory_def
        rotate_inputs_def archive_inputs_def shutil_move_def recreate_inputs_def
        ensure_dir_def move_contents_def move_entry_def lookup_entry_def remove_entry_def
        add_entry_def old_inputs_name_def quiet_rotation_def sample_dirs_def
        sample_main_env_def sample_args_def DEFAULT_CONFIG_def EXPORT_METHODS_def
        Let_def fun_eq_iff)

lemma rotated_discovery:
  "list_input_files (resolve sample_env) rotated_dirs (inputs DEFAULT_CONFIG)
     (input_types DEFAULT_CONFIG) = [(''/w/inputs/a.pdf'', ''a.pdf'')]"
  by (simp add: list_input_files_def sample_env_def rotated_dirs_def DEFAULT_CONFIG_def
        candidate_def splitext_def basename_def head_part_def lower_def lower_char_def
        lstrip_def join2_def Let_def)

lemma sample_file_stats:
  "stats (process_file sample_env DEFAULT_CONFIG False (''/w/inputs/a.pdf'', ''a.pdf'')
            (initial_state\<lparr>files := Map.empty,
                            stats := new_stats\<lparr>total_files := 1\<rparr>,
                            run_report := hdr\<rparr>))
   = \<lparr>total_files = 1, successful = 1, failed = 0, skipped = 0, total_size_bytes = 1024,
      failed_files = []\<rparr>"
proof -
  have l: "[0..<3] = [0, Suc 0, Suc (Suc 0)]" by (simp add: upt_rec numeral_3_eq_3)
  show ?thesis
    by (simp add: process_file_def check_file_size_def get_file_size_def process_output_def
          convert_document_def l attempt_body_def attempt_ok_def markdown_doc_def
          EXPORT_METHODS_def do_atomic_write_def atomic_write_def atomic_write_steps_def
          add_success_def new_stats_def initial_state_def sample_env_def DEFAULT_CONFIG_def
          splitext_def basename_def head_part_def lower_def lower_char_def lstrip_def
          dirname_def Let_def)
qed

lemma sample_run_stats:
  "(case process_conversions sample_env DEFAULT_CONFIG False rotated_dirs
           (initial_state\<lparr>files := Map.empty\<rparr>) of
      Inl err \<Rightarrow> None | Inr st \<Rightarrow> Some (stats st))
   = Some \<lparr>total_files = 1, successful = 1, failed = 0, skipped = 0, total_size_bytes = 1024,
            failed_files = []\<rparr>"
proof -
  have i: "converter_init sample_env = None" by (simp add: sample_env_def)
  show ?thesis
    using sample_file_stats
    by (simp add: process_conversions_def rotated_discovery i conversion_phase_def
          save_report_keeps)
qed

text \<open>
  C8. Unless the program was only asked to save the default configuration, the exit
  status is \<open>0\<close> exactly when the run reaches its end without an exception and the
  statistics list no failure; and neither the outcome of
  \<^verbatim>\<open>ensure_dir(outputs_dir)\<close> before the report nor that of the report's atomic write
  changes the exit status.
\<close>

theorem exit_status_zero_iff_no_failure:
  assumes "\<not> arg_save_config a"
  shows "(main a me c fs out_files = 0
            \<longleftrightarrow> (\<exists>fs' st. run_pipeline a me c fs out_files = Inr (fs', st)
                           \<and> failed_files (stats st) = []))
       \<and> main a (me\<lparr>processing := (processing me)\<lparr>report_ensure_dir := x, report_write := y\<rparr>\<rparr>)
               c fs out_files
           = main a me c fs out_files"
proof
  show "main a me c fs out_files = 0
          \<longleftrightarrow> (\<exists>fs' st. run_pipeline a me c fs out_files = Inr (fs', st)
                         \<and> failed_files (stats st) = [])"
  proof (cases "run_pipeline a me c fs out_files")
    case (Inl err)
    with assms show ?thesis by (simp add: main_def)
  next
    case (Inr r)
    obtain fs' st where r: "r = (fs', st)" by (cases r)
    from Inr r obtain fs5 where
      "process_conversions (processing me) c (arg_dry_run a) fs5
         (initial_state\<lparr>files := out_files\<rparr>) = Inr st"
      by (auto simp: run_pipeline_def split: sum.splits)
    from process_conversions_failed_count [OF this]
    have "failed (stats st) = 0 \<longleftrightarrow> failed_files (stats st) = []" by simp
    with assms Inr r show ?thesis by (simp add: main_def)
  qed
next
  show "main a (me\<lparr>processing := (processing me)\<lparr>report_ensure_dir := x, report_write := y\<rparr>\<rparr>)
               c fs out_files
           = main a me c fs out_files"
    unfolding main_by_stats
    by (simp add: setup_and_rotate_report_env process_conversions_report_env
          cong: sum.case_cong option.case_cong)
qed

text \<open>
  A whole run from the sample directories: one file converted, no failure, exit status 0,
  also when the report cannot be written.
\<close>

theorem exit_status_zero_iff_no_failure_witness:
  "\<not> arg_save_config sample_args
   \<and> main sample_args sample_main_env DEFAULT_CONFIG sample_dirs Map.empty = 0
   \<and> (\<exists>fs' st. run_pipeline sample_args sample_main_env DEFAULT_CONFIG sample_dirs Map.empty
                    = Inr (fs', st)
                \<and> failed_files (stats st) = [])
   \<and> main sample_args
        (sample_main_env\<lparr>processing := (processing sample_main_env)
           \<lparr>report_ensure_dir := None,
            report_write := \<lparr>fault = OpenFails ''Permission denied'', remove_fails = False\<rparr>\<rparr>\<rparr>)
        DEFAULT_CONFIG sample_dirs Map.empty = 0"
proof -
  have a: "\<not> arg_save_config sample_args" by (simp add: sample_args_def)
  have d: "arg_dry_run sample_args = False" by (simp add: sample_args_def)
  have p: "processing sample_main_env = sample_env" by (simp add: sample_main_env_def)
  have s: "setup_and_rotate sample_args sample_main_env DEFAULT_CONFIG sample_dirs
             = Inr rotated_dirs"
    unfolding rotated_dirs_def by (rule sample_setup)
  have m: "main sample_args sample_main_env DEFAULT_CONFIG sample_dirs Map.empty = 0"
    unfolding main_by_stats using a by (simp add: s d p sample_run_stats)
  from exit_status_zero_iff_no_failure [OF a, where me = sample_main_env and c = DEFAULT_CONFIG
      and fs = sample_dirs and out_files = Map.empty and x = None
      and y = "\<lparr>fault = OpenFails ''Permission denied'', remove_fails = False\<rparr>"] a m
  show ?thesis by simp
qed

end
